theory Spec2Isabelle
  imports Main "HOL-Library.Word"
begin

section \<open>JavaScript values used by the interpreter\<close>

text \<open>
  A JavaScript string is a sequence of UTF-16 code units. The script, the standard input
  and the produced output are all such strings. \<open>js\<close> writes a literal.
\<close>

type_synonym unit16 = "16 word"
type_synonym jsstring = "unit16 list"

definition js :: "string \<Rightarrow> jsstring" where
  "js s = map of_char s"

text \<open>
  A memory word holds a JavaScript number or, when the slot was never written,
  \<open>undefined\<close>. Every number that a run can produce is an integer of magnitude at most
  \<open>2 ^ 53\<close> or \<open>NaN\<close>: cells start at 0, receive code units, and change by 1.
\<close>

datatype jsval = Undefined | NaN | Num int

text \<open>
  Addition of IEEE doubles on integers: exact while the sum has magnitude at most
  \<open>2 ^ 53\<close>; the sums \<open>2 ^ 53 + 1\<close> and \<open>- 2 ^ 53 - 1\<close> round to even, that is back to
  \<open>2 ^ 53\<close> and \<open>- 2 ^ 53\<close>. The interpreter only ever adds 1 or -1.
\<close>

definition js_add :: "int \<Rightarrow> int \<Rightarrow> int" where
  "js_add a b =
     (let r = a + b
      in if r > 2 ^ 53 then 2 ^ 53 else if r < - (2 ^ 53) then - (2 ^ 53) else r)"

text \<open>\<open>x += amount\<close> on a memory word: \<open>undefined\<close> converts to \<open>NaN\<close>, which absorbs.\<close>

fun js_plus :: "jsval \<Rightarrow> int \<Rightarrow> jsval" where
  "js_plus (Num v) a = Num (js_add v a)"
| "js_plus NaN a = NaN"
| "js_plus Undefined a = NaN"

text \<open>\<open>String.fromCharCode(x)\<close>: the argument goes through ToUint16, which maps
  \<open>NaN\<close> and \<open>undefined\<close> to 0 and an integer to its residue modulo \<open>2 ^ 16\<close>.\<close>

fun fromCharCode :: "jsval \<Rightarrow> unit16" where
  "fromCharCode (Num v) = word_of_int v"
| "fromCharCode NaN = 0"
| "fromCharCode Undefined = 0"

text \<open>\<open>s.charCodeAt(k)\<close>: the code unit at index \<open>k\<close>, or \<open>NaN\<close> when \<open>k\<close> is out of range.\<close>

definition charCodeAt :: "jsstring \<Rightarrow> int \<Rightarrow> jsval" where
  "charCodeAt s k = (if 0 \<le> k \<and> k < int (length s) then Num (uint (s ! nat k)) else NaN)"

text \<open>\<open>x === 0\<close> and \<open>x === NaN\<close>. The latter is false for every \<open>x\<close>, \<open>NaN\<close> included.\<close>

definition strict_eq_zero :: "jsval \<Rightarrow> bool" where
  "strict_eq_zero x = (x = Num 0)"

definition strict_eq_NaN :: "jsval \<Rightarrow> bool" where
  "strict_eq_NaN x = False"

text \<open>\<open>x || 0\<close>: the falsy numbers \<open>NaN\<close> and 0 (and \<open>undefined\<close>) give 0.\<close>

fun or_zero :: "jsval \<Rightarrow> jsval" where
  "or_zero (Num v) = Num v"
| "or_zero NaN = Num 0"
| "or_zero Undefined = Num 0"

text \<open>
  A JavaScript array: its \<open>length\<close> and its properties by integer key. Reading a key
  that was never written gives \<open>undefined\<close>; writing at an array index at or beyond
  \<open>length\<close> extends the array; a negative key or one beyond \<open>2 ^ 32 - 2\<close> is an ordinary
  property and leaves \<open>length\<close> alone. An array cannot be longer than \<open>2 ^ 32 - 1\<close>.
\<close>

record jsarray =
  len :: nat
  elems :: "int \<Rightarrow> jsval"

definition max_array_length :: nat where
  "max_array_length = 2 ^ 32 - 1"

definition zeros :: "nat \<Rightarrow> jsarray" where
  "zeros n = \<lparr>len = n, elems = (\<lambda>k. if 0 \<le> k \<and> k < int n then Num 0 else Undefined)\<rparr>"

definition arr_get :: "jsarray \<Rightarrow> int \<Rightarrow> jsval" where
  "arr_get a k = elems a k"

definition arr_set :: "jsarray \<Rightarrow> int \<Rightarrow> jsval \<Rightarrow> jsarray" where
  "arr_set a k v =
     \<lparr>len = (if 0 \<le> k \<and> k < int max_array_length then max (len a) (nat k + 1) else len a),
      elems = (elems a)(k := v)\<rparr>"

text \<open>
  The errors a run can raise. The source throws plain \<open>Error\<close> objects; the constructors
  carry the values the messages are built from: for a pointer out of range the bound
  that was crossed, \<open>memoryPointer\<close>, \<open>stdInPointer\<close> and the memory size; for an invalid
  character the character and its location.
\<close>

datatype bound = LessThanZero | GreaterThan int

datatype error =
    PointerRangeError bound int int nat
  | InvalidInstructionError unit16 nat
  | InvalidArrayLength
  | NullElement

text \<open>What a run does to the world outside: console lines, \<open>div\<close> nodes of class
  \<open>bfjs\<close> appended to an element, and calls of the completion callback.\<close>

datatype ('e, 'cb) event =
    ConsoleLog jsstring
  | AppendDiv 'e jsstring
  | Callback 'cb jsstring

section \<open>The \<open>for\<close> loop\<close>

text \<open>
  One pass of a loop either leaves the loop with a result or continues with the next
  loop state. The loop may run forever: \<open>for_loop\<close> is then \<open>None\<close>. \<open>after\<close> is the
  state reached after \<open>n\<close> passes.
\<close>

partial_function (option) for_loop :: "('c \<Rightarrow> 'r + 'c) \<Rightarrow> 'c \<Rightarrow> 'r option" where
  "for_loop pass c = (case pass c of Inl r \<Rightarrow> Some r | Inr c' \<Rightarrow> for_loop pass c')"

fun after :: "('c \<Rightarrow> 'r + 'c) \<Rightarrow> nat \<Rightarrow> 'c \<Rightarrow> 'r + 'c" where
  "after pass 0 c = Inr c"
| "after pass (Suc n) c = (case pass c of Inl r \<Rightarrow> Inl r | Inr c' \<Rightarrow> after pass n c')"

section \<open>\<open>BFInterpreter\<close>, state in instance fields\<close>

record ('e, 'cb) BFInterpreterOptions =
  MemoryWords :: nat
  StdIn :: jsstring
  OutputElement :: "'e option"
  Quiet :: bool
  CompleteCallback :: "'cb option"

definition default_options :: "('e, 'cb) BFInterpreterOptions" where
  "default_options =
     \<lparr>MemoryWords = 30000, StdIn = [], OutputElement = None, Quiet = False,
      CompleteCallback = None\<rparr>"

record BFInterpreterState =
  memoryPointer :: int
  memory :: jsarray
  stdInPointer :: int
  loopStartIndices :: "nat list"

record ('e, 'cb) BFInterpreter =
  code :: jsstring
  options :: "('e, 'cb) BFInterpreterOptions"
  state :: BFInterpreterState

text \<open>\<open>InitializeMemory\<close>: \<open>new Array(MemoryWords)\<close> raises a \<open>RangeError\<close> for a length
  above \<open>2 ^ 32 - 1\<close>; otherwise the array is filled with zeros.\<close>

definition InitializeMemory :: "nat \<Rightarrow> error + jsarray" where
  "InitializeMemory memoryWords =
     (if memoryWords > max_array_length then Inl InvalidArrayLength
      else Inr (zeros memoryWords))"

definition new_BFInterpreter ::
  "jsstring \<Rightarrow> ('e, 'cb) BFInterpreterOptions option \<Rightarrow> error + ('e, 'cb) BFInterpreter" where
  "new_BFInterpreter c opts =
     (let os = (case opts of Some o' \<Rightarrow> o' | None \<Rightarrow> default_options)
      in case InitializeMemory (MemoryWords os) of
           Inl e \<Rightarrow> Inl e
         | Inr m \<Rightarrow>
             Inr \<lparr>code = c, options = os,
                  state = \<lparr>memoryPointer = 0, memory = m, stdInPointer = 0,
                            loopStartIndices = []\<rparr>\<rparr>)"

text \<open>\<open>MoveMemoryPointer\<close> updates the pointer first and checks it afterwards, so the
  state it leaves behind when it throws has the pointer already moved.\<close>

definition MoveMemoryPointer ::
  "('e, 'cb) BFInterpreterOptions \<Rightarrow> int \<Rightarrow> BFInterpreterState \<Rightarrow> error option \<times> BFInterpreterState" where
  "MoveMemoryPointer os forward st =
     (let st' = st\<lparr>memoryPointer := js_add (memoryPointer st) forward\<rparr>
      in if memoryPointer st' < 0
         then (Some (PointerRangeError LessThanZero (memoryPointer st') (stdInPointer st')
                       (MemoryWords os)), st')
         else if memoryPointer st' > int (MemoryWords os)
         then (Some (PointerRangeError (GreaterThan (int (MemoryWords os) - 1))
                       (memoryPointer st') (stdInPointer st') (MemoryWords os)), st')
         else (None, st'))"

definition IncrementMemoryLocation :: "int \<Rightarrow> BFInterpreterState \<Rightarrow> BFInterpreterState" where
  "IncrementMemoryLocation amount st =
     st\<lparr>memory := arr_set (memory st) (memoryPointer st)
                     (js_plus (arr_get (memory st) (memoryPointer st)) amount)\<rparr>"

definition ReadCharFromStdIn :: "jsstring \<Rightarrow> BFInterpreterState \<Rightarrow> BFInterpreterState" where
  "ReadCharFromStdIn stdIn st =
     (let charCode = charCodeAt stdIn (stdInPointer st);
          st' = st\<lparr>stdInPointer := js_add (stdInPointer st) 1\<rparr>;
          charCode' = (if strict_eq_NaN charCode then Num 0 else charCode)
      in st'\<lparr>memory := arr_set (memory st') (memoryPointer st') charCode'\<rparr>)"

definition GetCharForStdOut :: "BFInterpreterState \<Rightarrow> unit16" where
  "GetCharForStdOut st = fromCharCode (arr_get (memory st) (memoryPointer st))"

definition IsMemoryLocationZero :: "BFInterpreterState \<Rightarrow> bool" where
  "IsMemoryLocationZero st = strict_eq_zero (arr_get (memory st) (memoryPointer st))"

text \<open>\<open>push\<close> and \<open>pop\<close> work at the end of the array; \<open>pop\<close> on an empty array does
  nothing, and reading the last element of an empty array gives \<open>undefined\<close> (\<open>None\<close>).
  The version with instance fields writes \<open>this.loopStartIndices.push(i)\<close> and
  \<open>this.loopStartIndices.pop()\<close> in the \<open>switch\<close>; the version with a state object has
  them as the methods \<open>BeginNewLoop\<close> and \<open>EndLoop\<close>.\<close>

definition BeginNewLoop :: "nat \<Rightarrow> BFInterpreterState \<Rightarrow> BFInterpreterState" where
  "BeginNewLoop scriptIndex st = st\<lparr>loopStartIndices := loopStartIndices st @ [scriptIndex]\<rparr>"

definition EndLoop :: "BFInterpreterState \<Rightarrow> BFInterpreterState" where
  "EndLoop st = st\<lparr>loopStartIndices := butlast (loopStartIndices st)\<rparr>"

definition PeekLoopStartIndices :: "BFInterpreterState \<Rightarrow> nat option" where
  "PeekLoopStartIndices st =
     (if loopStartIndices st = [] then None else Some (last (loopStartIndices st)))"

text \<open>
  One pass of the loop of \<open>InterpretInternal\<close>: the test \<open>i < code.length\<close>, the
  \<open>switch\<close>, and \<open>i ++\<close>. The loop state is \<open>i\<close>, \<open>stdOut\<close> and the interpreter state.
  A pass ends the run by throwing, by finding \<open>i\<close> at the end of the script, or when
  \<open>]\<close> assigns \<open>undefined\<close> to \<open>i\<close> from an empty stack: \<open>i ++\<close> makes that \<open>NaN\<close> and the
  loop test fails. The state is returned in each case, since the instance keeps it.

  The class exists in two versions whose \<open>switch\<close> is the same text. They differ in the
  \<open>MoveMemoryPointer\<close> they call and in where the state lives, so the pass takes the
  \<open>MoveMemoryPointer\<close> and the standard input as arguments.
\<close>

type_synonym loop_state = "nat \<times> jsstring \<times> BFInterpreterState"
type_synonym run_result = "(error + jsstring) \<times> BFInterpreterState"
type_synonym move = "int \<Rightarrow> BFInterpreterState \<Rightarrow> error option \<times> BFInterpreterState"

definition tok :: "char \<Rightarrow> unit16" where
  "tok c = of_char c"

definition InterpretInternal_pass ::
  "move \<Rightarrow> jsstring \<Rightarrow> jsstring \<Rightarrow> loop_state \<Rightarrow> run_result + loop_state" where
  "InterpretInternal_pass mv stdIn c ls =
     (case ls of (i, stdOut, st) \<Rightarrow>
        if i < length c then
          let token = c ! i in
          if token = tok CHR ''>'' then
            (case mv 1 st of
               (Some e, st') \<Rightarrow> Inl (Inl e, st')
             | (None, st') \<Rightarrow> Inr (i + 1, stdOut, st'))
          else if token = tok CHR ''<'' then
            (case mv (- 1) st of
               (Some e, st') \<Rightarrow> Inl (Inl e, st')
             | (None, st') \<Rightarrow> Inr (i + 1, stdOut, st'))
          else if token = tok CHR ''+'' then
            Inr (i + 1, stdOut, IncrementMemoryLocation 1 st)
          else if token = tok CHR ''-'' then
            Inr (i + 1, stdOut, IncrementMemoryLocation (- 1) st)
          else if token = tok CHR ''.'' then
            Inr (i + 1, stdOut @ [GetCharForStdOut st], st)
          else if token = tok CHR '','' then
            Inr (i + 1, stdOut, ReadCharFromStdIn stdIn st)
          else if token = tok CHR ''['' then
            Inr (i + 1, stdOut, BeginNewLoop i st)
          else if token = tok CHR '']'' then
            (if IsMemoryLocationZero st then Inr (i + 1, stdOut, EndLoop st)
             else (case PeekLoopStartIndices st of
                     None \<Rightarrow> Inl (Inr stdOut, st)
                   | Some p \<Rightarrow> Inr (p + 1, stdOut, st)))
          else Inl (Inl (InvalidInstructionError (c ! i) i), st)
        else Inl (Inr stdOut, st))"

definition InterpretInternal ::
  "('e, 'cb) BFInterpreterOptions \<Rightarrow> jsstring \<Rightarrow> BFInterpreterState \<Rightarrow> run_result option" where
  "InterpretInternal os c st =
     for_loop (InterpretInternal_pass (MoveMemoryPointer os) (StdIn os) c) (0, [], st)"

definition WriteOutput :: "('e, 'cb) BFInterpreterOptions \<Rightarrow> jsstring \<Rightarrow> ('e, 'cb) event list" where
  "WriteOutput os stdOut =
     (if \<not> Quiet os then
        (case OutputElement os of
           None \<Rightarrow> [ConsoleLog stdOut]
         | Some el \<Rightarrow> [AppendDiv el stdOut])
      else [])"

definition OnComplete :: "('e, 'cb) BFInterpreterOptions \<Rightarrow> jsstring \<Rightarrow> ('e, 'cb) event list" where
  "OnComplete os stdOut =
     (case CompleteCallback os of
        Some cb \<Rightarrow> [Callback cb stdOut]
      | None \<Rightarrow> [])"

text \<open>
  \<open>Interpret\<close> on an instance: the result (the output string or the error thrown), the
  events it caused, and the instance as the call leaves it. \<open>None\<close>: the call never
  returns.
\<close>

definition Interpret ::
  "('e, 'cb) BFInterpreter \<Rightarrow> ((error + jsstring) \<times> ('e, 'cb) event list \<times> ('e, 'cb) BFInterpreter) option" where
  "Interpret this =
     (case InterpretInternal (options this) (code this) (state this) of
        None \<Rightarrow> None
      | Some (Inl e, st) \<Rightarrow> Some (Inl e, [], this\<lparr>state := st\<rparr>)
      | Some (Inr stdOut, st) \<Rightarrow>
          Some (Inr stdOut, WriteOutput (options this) stdOut @ OnComplete (options this) stdOut,
                this\<lparr>state := st\<rparr>))"

section \<open>\<open>BFInterpreter\<close>, state in a \<open>BFInterpreterState\<close> object\<close>

text \<open>
  In this version the instance holds only \<open>code\<close> and \<open>options\<close>, both assigned in the
  constructor and never again. \<open>Interpret\<close> creates a \<open>BFInterpreterState\<close> for the run.
  \<open>MoveMemoryPointer\<close> compares the pointer with \<open>this.memory.length\<close>.
\<close>

definition new_BFInterpreterState :: "('e, 'cb) BFInterpreterOptions \<Rightarrow> error + BFInterpreterState" where
  "new_BFInterpreterState os =
     (case InitializeMemory (MemoryWords os) of
        Inl e \<Rightarrow> Inl e
      | Inr m \<Rightarrow>
          Inr \<lparr>memoryPointer = 0, memory = m, stdInPointer = 0, loopStartIndices = []\<rparr>)"

definition MoveMemoryPointer_state :: move where
  "MoveMemoryPointer_state forward st =
     (let st' = st\<lparr>memoryPointer := js_add (memoryPointer st) forward\<rparr>
      in if memoryPointer st' < 0
         then (Some (PointerRangeError LessThanZero (memoryPointer st') (stdInPointer st')
                       (len (memory st'))), st')
         else if memoryPointer st' > int (len (memory st'))
         then (Some (PointerRangeError (GreaterThan (int (len (memory st')) - 1))
                       (memoryPointer st') (stdInPointer st') (len (memory st'))), st')
         else (None, st'))"

definition InterpretInternal_state ::
  "('e, 'cb) BFInterpreterOptions \<Rightarrow> jsstring \<Rightarrow> BFInterpreterState \<Rightarrow> run_result option" where
  "InterpretInternal_state os c st =
     for_loop (InterpretInternal_pass MoveMemoryPointer_state (StdIn os) c) (0, [], st)"

definition Interpret_state ::
  "jsstring \<Rightarrow> ('e, 'cb) BFInterpreterOptions \<Rightarrow> ((error + jsstring) \<times> ('e, 'cb) event list) option" where
  "Interpret_state c os =
     (case new_BFInterpreterState os of
        Inl e \<Rightarrow> Some (Inl e, [])
      | Inr st0 \<Rightarrow>
          (case InterpretInternal_state os c st0 of
             None \<Rightarrow> None
           | Some (Inl e, st) \<Rightarrow> Some (Inl e, [])
           | Some (Inr stdOut, st) \<Rightarrow>
               Some (Inr stdOut, WriteOutput os stdOut @ OnComplete os stdOut)))"

section \<open>The function \<open>BF\<close>\<close>

text \<open>
  \<open>opts\<close> and each of its properties may be absent (\<open>None\<close>). \<open>opts.memory || 30000\<close>
  also replaces 0, and \<open>opts.stdin || ""\<close> the empty string, by the default.
\<close>

record 'i BF_opts =
  memory_opt :: "nat option"
  stdin_opt :: "jsstring option"
  id_opt :: "'i option"
  quiet_opt :: "bool option"

record BF_vars =
  memory_bf :: jsarray
  mem_index :: int
  loop_start_indices :: "nat list"
  stdin_index :: int
  std_out :: jsstring

definition BF_pass :: "jsstring \<Rightarrow> jsstring \<Rightarrow> nat \<times> BF_vars \<Rightarrow> BF_vars + nat \<times> BF_vars" where
  "BF_pass input c ls =
     (case ls of (i, v) \<Rightarrow>
        if i < length c then
          let t = c ! i in
          if t = tok CHR ''>'' then
            Inr (i + 1, v\<lparr>mem_index := js_add (mem_index v) 1\<rparr>)
          else if t = tok CHR ''<'' then
            Inr (i + 1, v\<lparr>mem_index := js_add (mem_index v) (- 1)\<rparr>)
          else if t = tok CHR ''+'' then
            Inr (i + 1, v\<lparr>memory_bf := arr_set (memory_bf v) (mem_index v)
                                           (js_plus (arr_get (memory_bf v) (mem_index v)) 1)\<rparr>)
          else if t = tok CHR ''-'' then
            Inr (i + 1, v\<lparr>memory_bf := arr_set (memory_bf v) (mem_index v)
                                           (js_plus (arr_get (memory_bf v) (mem_index v)) (- 1))\<rparr>)
          else if t = tok CHR ''.'' then
            Inr (i + 1, v\<lparr>std_out := std_out v @ [fromCharCode (arr_get (memory_bf v) (mem_index v))]\<rparr>)
          else if t = tok CHR '','' then
            Inr (i + 1, v\<lparr>memory_bf := arr_set (memory_bf v) (mem_index v)
                                           (or_zero (charCodeAt input (stdin_index v))),
                           stdin_index := js_add (stdin_index v) 1\<rparr>)
          else if t = tok CHR ''['' then
            Inr (i + 1, v\<lparr>loop_start_indices := loop_start_indices v @ [i]\<rparr>)
          else if t = tok CHR '']'' then
            (if strict_eq_zero (arr_get (memory_bf v) (mem_index v))
             then Inr (i + 1, v\<lparr>loop_start_indices := butlast (loop_start_indices v)\<rparr>)
             else if loop_start_indices v = [] then Inl v
             else Inr (last (loop_start_indices v) + 1, v))
          else Inr (i + 1, v)
        else Inl v)"

definition BF_init :: "nat \<Rightarrow> error + BF_vars" where
  "BF_init n =
     (if n > max_array_length then Inl InvalidArrayLength
      else Inr \<lparr>memory_bf = zeros n, mem_index = 0, loop_start_indices = [],
                stdin_index = 0, std_out = []\<rparr>)"

text \<open>\<open>opts.memory || 30000\<close> and \<open>opts.stdin || ""\<close>.\<close>

definition mem_size :: "'i BF_opts \<Rightarrow> nat" where
  "mem_size opts = (case memory_opt opts of None \<Rightarrow> 30000 | Some n \<Rightarrow> if n = 0 then 30000 else n)"

definition stdin :: "'i BF_opts \<Rightarrow> jsstring" where
  "stdin opts = (case stdin_opt opts of None \<Rightarrow> [] | Some s \<Rightarrow> s)"

text \<open>The interpretation proper: lines 13 to 45 of the function.\<close>

definition BF_run :: "jsstring \<Rightarrow> 'i BF_opts \<Rightarrow> (error + BF_vars) option" where
  "BF_run c opts =
     (case BF_init (mem_size opts) of
        Inl e \<Rightarrow> Some (Inl e)
      | Inr v0 \<Rightarrow> map_option Inr (for_loop (BF_pass (stdin opts) c) (0, v0)))"

text \<open>
  The rendering after the loop takes the document as the partial function
  \<open>getElementById\<close>; appending to the \<open>null\<close> it returns for an unknown id throws.
\<close>

definition BF ::
  "('i \<Rightarrow> 'e option) \<Rightarrow> jsstring \<Rightarrow> 'i BF_opts \<Rightarrow> ((error + jsstring) \<times> ('e, 'cb) event list) option" where
  "BF getElementById c opts =
     (case BF_run c opts of
        None \<Rightarrow> None
      | Some (Inl e) \<Rightarrow> Some (Inl e, [])
      | Some (Inr v) \<Rightarrow>
          (case id_opt opts of
             None \<Rightarrow>
               (if quiet_opt opts = None \<or> quiet_opt opts = Some False
                then Some (Inr (std_out v), [ConsoleLog (std_out v)])
                else Some (Inr (std_out v), []))
           | Some i \<Rightarrow>
               (case getElementById i of
                  None \<Rightarrow> Some (Inl NullElement, [])
                | Some el \<Rightarrow> Some (Inr (std_out v), [AppendDiv el (std_out v)]))))"

section \<open>Callers and notions used in the statements\<close>

text \<open>\<open>new BFInterpreter(code, options).Interpret()\<close>, and two calls of \<open>Interpret\<close> on one
  instance, each reduced to what the caller receives.\<close>

definition Interpret_new ::
  "jsstring \<Rightarrow> ('e, 'cb) BFInterpreterOptions \<Rightarrow> (error + jsstring) option" where
  "Interpret_new c os =
     (case new_BFInterpreter c (Some os) of
        Inl e \<Rightarrow> Some (Inl e)
      | Inr this \<Rightarrow> map_option fst (Interpret this))"

definition Interpret_twice ::
  "('e, 'cb) BFInterpreter \<Rightarrow> ((error + jsstring) \<times> (error + jsstring)) option" where
  "Interpret_twice this =
     (case Interpret this of
        None \<Rightarrow> None
      | Some (r1, ev1, this1) \<Rightarrow>
          (case Interpret this1 of
             None \<Rightarrow> None
           | Some (r2, ev2, this2) \<Rightarrow> Some (r1, r2)))"

definition Interpret_new_twice ::
  "jsstring \<Rightarrow> ('e, 'cb) BFInterpreterOptions \<Rightarrow> ((error + jsstring) \<times> (error + jsstring)) option" where
  "Interpret_new_twice c os =
     (case new_BFInterpreter c (Some os) of
        Inl e \<Rightarrow> Some (Inl e, Inl e)
      | Inr this \<Rightarrow> Interpret_twice this)"

text \<open>Options with a given memory size and input and the defaults otherwise, the \<open>opts\<close>
  of a call \<open>BF(code)\<close>, and a document without elements.\<close>

definition options_with :: "nat \<Rightarrow> jsstring \<Rightarrow> (unit, unit) BFInterpreterOptions" where
  "options_with n s = default_options\<lparr>MemoryWords := n, StdIn := s\<rparr>"

definition no_opts :: "unit BF_opts" where
  "no_opts = \<lparr>memory_opt = None, stdin_opt = None, id_opt = None, quiet_opt = None\<rparr>"

definition no_document :: "unit \<Rightarrow> unit option" where
  "no_document i = None"

text \<open>The eight characters that the \<open>switch\<close> has a case for.\<close>

definition instruction_set :: "unit16 set" where
  "instruction_set =
     {tok CHR ''>'', tok CHR ''<'', tok CHR ''+'', tok CHR ''-'', tok CHR ''.'', tok CHR '','',
      tok CHR ''['', tok CHR '']''}"

text \<open>The interpreter state that a pass leaves, whether it ends the run or not.\<close>

definition state_after :: "run_result + loop_state \<Rightarrow> BFInterpreterState" where
  "state_after x = (case x of Inl (r, st) \<Rightarrow> st | Inr (i, stdOut, st) \<Rightarrow> st)"

definition vars_after :: "BF_vars + nat \<times> BF_vars \<Rightarrow> BF_vars" where
  "vars_after x = (case x of Inl v \<Rightarrow> v | Inr (i, v) \<Rightarrow> v)"

text \<open>Every entry of a loop-start stack is a position of the script that holds \<open>[\<close>.\<close>

definition loop_starts_ok :: "jsstring \<Rightarrow> nat list \<Rightarrow> bool" where
  "loop_starts_ok c xs = list_all (\<lambda>p. p < length c \<and> c ! p = tok CHR ''['') xs"

text \<open>A \<open>MoveMemoryPointer\<close> that touches the pointer only.\<close>

definition move_frame :: "move \<Rightarrow> bool" where
  "move_frame mv =
     (\<forall>f st. memory (snd (mv f st)) = memory st
           \<and> loopStartIndices (snd (mv f st)) = loopStartIndices st
           \<and> stdInPointer (snd (mv f st)) = stdInPointer st)"

text \<open>The state and the variables with which a run on \<open>n\<close> memory words begins.\<close>

definition fresh_state :: "nat \<Rightarrow> BFInterpreterState" where
  "fresh_state n = \<lparr>memoryPointer = 0, memory = zeros n, stdInPointer = 0, loopStartIndices = []\<rparr>"

definition fresh_vars :: "nat \<Rightarrow> BF_vars" where
  "fresh_vars n =
     \<lparr>memory_bf = zeros n, mem_index = 0, loop_start_indices = [], stdin_index = 0, std_out = []\<rparr>"

text \<open>The loop state of a run after \<open>n\<close> passes (or its result, if it ended before), for
  \<open>Interpret\<close> on an instance, for \<open>Interpret\<close> with a state object, and for \<open>BF\<close>.\<close>

definition Interpret_after ::
  "('e, 'cb) BFInterpreter \<Rightarrow> nat \<Rightarrow> run_result + loop_state" where
  "Interpret_after this n =
     after (InterpretInternal_pass (MoveMemoryPointer (options this)) (StdIn (options this))
              (code this)) n (0, [], state this)"

definition Interpret_state_after ::
  "jsstring \<Rightarrow> ('e, 'cb) BFInterpreterOptions \<Rightarrow> BFInterpreterState \<Rightarrow> nat \<Rightarrow> run_result + loop_state" where
  "Interpret_state_after c os st0 n =
     after (InterpretInternal_pass MoveMemoryPointer_state (StdIn os) c) n (0, [], st0)"

definition BF_after :: "jsstring \<Rightarrow> jsstring \<Rightarrow> BF_vars \<Rightarrow> nat \<Rightarrow> BF_vars + nat \<times> BF_vars" where
  "BF_after inp c v0 n = after (BF_pass inp c) n (0, v0)"

text \<open>An instance whose loop-start stack fits its script, and options with \<open>Quiet\<close> set
  and no callback.\<close>

definition instance_ok :: "('e, 'cb) BFInterpreter \<Rightarrow> bool" where
  "instance_ok this = loop_starts_ok (code this) (loopStartIndices (state this))"

definition quiet_options :: "(unit, unit) BFInterpreterOptions" where
  "quiet_options = default_options\<lparr>MemoryWords := 3, Quiet := True\<rparr>"



text \<open>The script of \<open>n\<close> read-then-write pairs.\<close>

definition read_write_pairs :: "nat \<Rightarrow> jsstring" where
  "read_write_pairs n = concat (replicate n (js '',.''))"

text \<open>
  The numbers on which \<open>js_add\<close> is the addition of doubles: the integers of magnitude
  at most \<open>2 ^ 53\<close>. A state is exact when its pointer, its input cursor and every number
  in its memory are such numbers.
\<close>

definition exact_number :: "int \<Rightarrow> bool" where
  "exact_number v = (- (2 ^ 53) \<le> v \<and> v \<le> 2 ^ 53)"

fun exact_value :: "jsval \<Rightarrow> bool" where
  "exact_value (Num v) = exact_number v"
| "exact_value NaN = True"
| "exact_value Undefined = True"

definition exact_state :: "BFInterpreterState \<Rightarrow> bool" where
  "exact_state st =
     (exact_number (memoryPointer st) \<and> exact_number (stdInPointer st)
      \<and> (\<forall>k. exact_value (arr_get (memory st) k)))"

definition exact_vars :: "BF_vars \<Rightarrow> bool" where
  "exact_vars v =
     (exact_number (mem_index v) \<and> exact_number (stdin_index v)
      \<and> (\<forall>k. exact_value (arr_get (memory_bf v) k)))"

section \<open>Evaluation\<close>

text \<open>The definitions that evaluate a run on a given script.\<close>

lemmas bf_defs = InterpretInternal_pass_def MoveMemoryPointer_def MoveMemoryPointer_state_def
  IncrementMemoryLocation_def ReadCharFromStdIn_def GetCharForStdOut_def IsMemoryLocationZero_def
  BeginNewLoop_def EndLoop_def PeekLoopStartIndices_def arr_get_def arr_set_def zeros_def
  js_add_def charCodeAt_def strict_eq_zero_def strict_eq_NaN_def tok_def js_def max_array_length_def
  InitializeMemory_def new_BFInterpreter_def new_BFInterpreterState_def InterpretInternal_def
  InterpretInternal_state_def Interpret_def Interpret_state_def WriteOutput_def OnComplete_def
  BF_pass_def BF_init_def mem_size_def stdin_def BF_run_def BF_def default_options_def
  Interpret_new_def Interpret_twice_def Interpret_new_twice_def options_with_def no_opts_def
  no_document_def

text \<open>Two runs on the default options: 65 times \<open>+\<close> and then \<open>.\<close> prints \<open>A\<close>, and the
  loop of \<open>++[>++<-]>.\<close> runs twice and prints the code unit 4. The three implementations
  agree.\<close>

lemma sixty_five_is_A:
  "map_option fst (Interpret_state (js ''+++++++++++++++++++++++++++++++++++++++++++++++++++++++++++++++++.'') (options_with 30000 [])) = Some (Inr (js ''A''))"
  "Interpret_new (js ''+++++++++++++++++++++++++++++++++++++++++++++++++++++++++++++++++.'') (options_with 30000 []) = Some (Inr (js ''A''))"
  "map_option fst (BF no_document (js ''+++++++++++++++++++++++++++++++++++++++++++++++++++++++++++++++++.'') no_opts) = Some (Inr (js ''A''))"
  by (simp_all add: bf_defs for_loop.simps)

lemma loop_runs_twice:
  "map_option fst (Interpret_state (js ''++[>++<-]>.'') (options_with 30000 [])) = Some (Inr [4])"
  "Interpret_new (js ''++[>++<-]>.'') (options_with 30000 []) = Some (Inr [4])"
  "map_option fst (BF no_document (js ''++[>++<-]>.'') no_opts) = Some (Inr [4])"
  by (simp_all add: bf_defs for_loop.simps)

section \<open>The loop and its passes\<close>

lemma for_loop_after_continue:
  "after pass n c = Inr c' \<Longrightarrow> for_loop pass c = for_loop pass c'"
proof (induction n arbitrary: c)
  case 0
  then show ?case by simp
next
  case (Suc n)
  then show ?case
    by (subst for_loop.simps) (auto split: sum.splits)
qed

lemma for_loop_after_done:
  "after pass n c = Inl r \<Longrightarrow> for_loop pass c = Some r"
proof (induction n arbitrary: c)
  case 0
  then show ?case by simp
next
  case (Suc n)
  then show ?case
    by (subst for_loop.simps) (auto split: sum.splits)
qed

lemma for_loop_returns_after:
  fixes pass :: "'c \<Rightarrow> 'r + 'c"
  assumes "for_loop pass c = Some r"
  shows "\<exists>n. after pass n c = Inl r"
proof (rule for_loop.raw_induct[where P = "\<lambda>p b y. \<exists>n. after p n b = Inl y", OF _ assms])
  fix loop :: "('c \<Rightarrow> 'r + 'c) \<Rightarrow> 'c \<Rightarrow> 'r option" and p b y
  assume IH: "\<And>p b y. loop p b = Some y \<Longrightarrow> \<exists>n. after p n b = Inl y"
    and eq: "(case p b of Inl r \<Rightarrow> Some r | Inr c' \<Rightarrow> loop p c') = Some y"
  show "\<exists>n. after p n b = Inl y"
  proof (cases "p b")
    case (Inl r')
    with eq have "after p (Suc 0) b = Inl y" by simp
    then show ?thesis by blast
  next
    case (Inr c')
    with eq have "loop p c' = Some y" by simp
    from IH[OF this] obtain n where "after p n c' = Inl y" by blast
    with Inr have "after p (Suc n) b = Inl y" by simp
    then show ?thesis by blast
  qed
qed

lemma for_loop_None_iff:
  "for_loop pass c = None \<longleftrightarrow> (\<forall>n. \<exists>c'. after pass n c = Inr c')"
proof
  assume n: "for_loop pass c = None"
  show "\<forall>n. \<exists>c'. after pass n c = Inr c'"
  proof
    fix k
    show "\<exists>c'. after pass k c = Inr c'"
    proof (cases "after pass k c")
      case (Inl r)
      from for_loop_after_done[OF this] n show ?thesis by simp
    next
      case (Inr c')
      then show ?thesis by blast
    qed
  qed
next
  assume a: "\<forall>n. \<exists>c'. after pass n c = Inr c'"
  show "for_loop pass c = None"
  proof (cases "for_loop pass c")
    case None
    then show ?thesis .
  next
    case (Some r)
    from for_loop_returns_after[OF this] obtain k where "after pass k c = Inl r" by blast
    moreover from a obtain c' where "after pass k c = Inr c'" by blast
    ultimately show ?thesis by simp
  qed
qed

lemma after_invariant:
  assumes "\<And>c c'. Inv c \<Longrightarrow> pass c = Inr c' \<Longrightarrow> Inv c'"
    and "Inv c0" and "after pass n c0 = Inr c'"
  shows "Inv c'"
  using assms(2,3)
proof (induction n arbitrary: c0)
  case 0
  then show ?case by simp
next
  case (Suc n)
  then show ?case
    by (auto split: sum.splits dest: assms(1))
qed

lemma after_result:
  assumes "\<And>c c'. Inv c \<Longrightarrow> pass c = Inr c' \<Longrightarrow> Inv c'"
    and "\<And>c r. Inv c \<Longrightarrow> pass c = Inl r \<Longrightarrow> Post r"
    and "Inv c0" and "after pass n c0 = Inl r"
  shows "Post r"
  using assms(3,4)
proof (induction n arbitrary: c0)
  case 0
  then show ?case by simp
next
  case (Suc n)
  then show ?case
    by (auto split: sum.splits dest: assms(1,2))
qed

subsection \<open>What one pass does, by token\<close>

lemma tok_neq:
  "tok CHR ''>'' \<noteq> tok CHR ''<''" "tok CHR ''>'' \<noteq> tok CHR ''+''" "tok CHR ''>'' \<noteq> tok CHR ''-''"
  "tok CHR ''>'' \<noteq> tok CHR ''.''" "tok CHR ''>'' \<noteq> tok CHR '',''" "tok CHR ''>'' \<noteq> tok CHR ''[''"
  "tok CHR ''>'' \<noteq> tok CHR '']''" "tok CHR ''<'' \<noteq> tok CHR ''+''" "tok CHR ''<'' \<noteq> tok CHR ''-''"
  "tok CHR ''<'' \<noteq> tok CHR ''.''" "tok CHR ''<'' \<noteq> tok CHR '',''" "tok CHR ''<'' \<noteq> tok CHR ''[''"
  "tok CHR ''<'' \<noteq> tok CHR '']''" "tok CHR ''+'' \<noteq> tok CHR ''-''" "tok CHR ''+'' \<noteq> tok CHR ''.''"
  "tok CHR ''+'' \<noteq> tok CHR '',''" "tok CHR ''+'' \<noteq> tok CHR ''[''" "tok CHR ''+'' \<noteq> tok CHR '']''"
  "tok CHR ''-'' \<noteq> tok CHR ''.''" "tok CHR ''-'' \<noteq> tok CHR '',''" "tok CHR ''-'' \<noteq> tok CHR ''[''"
  "tok CHR ''-'' \<noteq> tok CHR '']''" "tok CHR ''.'' \<noteq> tok CHR '',''" "tok CHR ''.'' \<noteq> tok CHR ''[''"
  "tok CHR ''.'' \<noteq> tok CHR '']''" "tok CHR '','' \<noteq> tok CHR ''[''" "tok CHR '','' \<noteq> tok CHR '']''"
  "tok CHR ''['' \<noteq> tok CHR '']''"
  by (simp_all add: tok_def)

lemma pass_end:
  "\<not> i < length c \<Longrightarrow> InterpretInternal_pass mv stdIn c (i, out, st) = Inl (Inr out, st)"
  by (simp add: InterpretInternal_pass_def)

lemma pass_right:
  "i < length c \<Longrightarrow> c ! i = tok CHR ''>'' \<Longrightarrow>
   InterpretInternal_pass mv stdIn c (i, out, st) =
     (case mv 1 st of (Some e, st') \<Rightarrow> Inl (Inl e, st') | (None, st') \<Rightarrow> Inr (i + 1, out, st'))"
  by (simp add: InterpretInternal_pass_def)

lemma pass_left:
  "i < length c \<Longrightarrow> c ! i = tok CHR ''<'' \<Longrightarrow>
   InterpretInternal_pass mv stdIn c (i, out, st) =
     (case mv (- 1) st of (Some e, st') \<Rightarrow> Inl (Inl e, st') | (None, st') \<Rightarrow> Inr (i + 1, out, st'))"
  by (simp add: InterpretInternal_pass_def tok_neq[symmetric])

lemma pass_plus:
  "i < length c \<Longrightarrow> c ! i = tok CHR ''+'' \<Longrightarrow>
   InterpretInternal_pass mv stdIn c (i, out, st) = Inr (i + 1, out, IncrementMemoryLocation 1 st)"
  by (simp add: InterpretInternal_pass_def tok_neq[symmetric])

lemma pass_minus:
  "i < length c \<Longrightarrow> c ! i = tok CHR ''-'' \<Longrightarrow>
   InterpretInternal_pass mv stdIn c (i, out, st) = Inr (i + 1, out, IncrementMemoryLocation (- 1) st)"
  by (simp add: InterpretInternal_pass_def tok_neq[symmetric])

lemma pass_write:
  "i < length c \<Longrightarrow> c ! i = tok CHR ''.'' \<Longrightarrow>
   InterpretInternal_pass mv stdIn c (i, out, st) = Inr (i + 1, out @ [GetCharForStdOut st], st)"
  by (simp add: InterpretInternal_pass_def tok_neq[symmetric])

lemma pass_read:
  "i < length c \<Longrightarrow> c ! i = tok CHR '','' \<Longrightarrow>
   InterpretInternal_pass mv stdIn c (i, out, st) = Inr (i + 1, out, ReadCharFromStdIn stdIn st)"
  by (simp add: InterpretInternal_pass_def tok_neq[symmetric])

lemma pass_open:
  "i < length c \<Longrightarrow> c ! i = tok CHR ''['' \<Longrightarrow>
   InterpretInternal_pass mv stdIn c (i, out, st) = Inr (i + 1, out, BeginNewLoop i st)"
  by (simp add: InterpretInternal_pass_def tok_neq[symmetric])

lemma pass_close:
  "i < length c \<Longrightarrow> c ! i = tok CHR '']'' \<Longrightarrow>
   InterpretInternal_pass mv stdIn c (i, out, st) =
     (if IsMemoryLocationZero st then Inr (i + 1, out, EndLoop st)
      else (case PeekLoopStartIndices st of
              None \<Rightarrow> Inl (Inr out, st)
            | Some p \<Rightarrow> Inr (p + 1, out, st)))"
  by (simp add: InterpretInternal_pass_def tok_neq[symmetric])

lemma pass_other:
  "i < length c \<Longrightarrow> c ! i \<notin> instruction_set \<Longrightarrow>
   InterpretInternal_pass mv stdIn c (i, out, st) = Inl (Inl (InvalidInstructionError (c ! i) i), st)"
  by (simp add: InterpretInternal_pass_def instruction_set_def)

lemma token_cases:
  assumes "t = tok CHR ''>'' \<Longrightarrow> P" "t = tok CHR ''<'' \<Longrightarrow> P" "t = tok CHR ''+'' \<Longrightarrow> P"
    "t = tok CHR ''-'' \<Longrightarrow> P" "t = tok CHR ''.'' \<Longrightarrow> P" "t = tok CHR '','' \<Longrightarrow> P"
    "t = tok CHR ''['' \<Longrightarrow> P" "t = tok CHR '']'' \<Longrightarrow> P" "t \<notin> instruction_set \<Longrightarrow> P"
  shows P
  using assms unfolding instruction_set_def by blast

lemma move_frame_MoveMemoryPointer: "move_frame (MoveMemoryPointer os)"
  by (simp add: move_frame_def MoveMemoryPointer_def Let_def)

lemma move_frame_MoveMemoryPointer_state: "move_frame MoveMemoryPointer_state"
  by (simp add: move_frame_def MoveMemoryPointer_state_def Let_def)

lemma BF_pass_end:
  "\<not> i < length c \<Longrightarrow> BF_pass inp c (i, v) = Inl v"
  by (simp add: BF_pass_def)

lemma BF_pass_right:
  "i < length c \<Longrightarrow> c ! i = tok CHR ''>'' \<Longrightarrow>
   BF_pass inp c (i, v) = Inr (i + 1, v\<lparr>mem_index := js_add (mem_index v) 1\<rparr>)"
  by (simp add: BF_pass_def)

lemma BF_pass_left:
  "i < length c \<Longrightarrow> c ! i = tok CHR ''<'' \<Longrightarrow>
   BF_pass inp c (i, v) = Inr (i + 1, v\<lparr>mem_index := js_add (mem_index v) (- 1)\<rparr>)"
  by (simp add: BF_pass_def tok_neq[symmetric])

lemma BF_pass_plus:
  "i < length c \<Longrightarrow> c ! i = tok CHR ''+'' \<Longrightarrow>
   BF_pass inp c (i, v) =
     Inr (i + 1, v\<lparr>memory_bf := arr_set (memory_bf v) (mem_index v)
                                    (js_plus (arr_get (memory_bf v) (mem_index v)) 1)\<rparr>)"
  by (simp add: BF_pass_def tok_neq[symmetric])

lemma BF_pass_minus:
  "i < length c \<Longrightarrow> c ! i = tok CHR ''-'' \<Longrightarrow>
   BF_pass inp c (i, v) =
     Inr (i + 1, v\<lparr>memory_bf := arr_set (memory_bf v) (mem_index v)
                                    (js_plus (arr_get (memory_bf v) (mem_index v)) (- 1))\<rparr>)"
  by (simp add: BF_pass_def tok_neq[symmetric])

lemma BF_pass_write:
  "i < length c \<Longrightarrow> c ! i = tok CHR ''.'' \<Longrightarrow>
   BF_pass inp c (i, v) =
     Inr (i + 1, v\<lparr>std_out := std_out v @ [fromCharCode (arr_get (memory_bf v) (mem_index v))]\<rparr>)"
  by (simp add: BF_pass_def tok_neq[symmetric])

lemma BF_pass_read:
  "i < length c \<Longrightarrow> c ! i = tok CHR '','' \<Longrightarrow>
   BF_pass inp c (i, v) =
     Inr (i + 1, v\<lparr>memory_bf := arr_set (memory_bf v) (mem_index v)
                                    (or_zero (charCodeAt inp (stdin_index v))),
                    stdin_index := js_add (stdin_index v) 1\<rparr>)"
  by (simp add: BF_pass_def tok_neq[symmetric])

lemma BF_pass_open:
  "i < length c \<Longrightarrow> c ! i = tok CHR ''['' \<Longrightarrow>
   BF_pass inp c (i, v) = Inr (i + 1, v\<lparr>loop_start_indices := loop_start_indices v @ [i]\<rparr>)"
  by (simp add: BF_pass_def tok_neq[symmetric])

lemma BF_pass_close:
  "i < length c \<Longrightarrow> c ! i = tok CHR '']'' \<Longrightarrow>
   BF_pass inp c (i, v) =
     (if strict_eq_zero (arr_get (memory_bf v) (mem_index v))
      then Inr (i + 1, v\<lparr>loop_start_indices := butlast (loop_start_indices v)\<rparr>)
      else if loop_start_indices v = [] then Inl v
      else Inr (last (loop_start_indices v) + 1, v))"
  by (simp add: BF_pass_def tok_neq[symmetric])

lemma BF_pass_other:
  "i < length c \<Longrightarrow> c ! i \<notin> instruction_set \<Longrightarrow> BF_pass inp c (i, v) = Inr (i + 1, v)"
  by (simp add: BF_pass_def instruction_set_def)

lemma after_numeral:
  "after pass (numeral k) c
   = (case pass c of Inl r \<Rightarrow> Inl r | Inr c' \<Rightarrow> after pass (pred_numeral k) c')"
  by (simp add: numeral_eq_Suc)

lemma after_1:
  "after pass 1 c = (case pass c of Inl r \<Rightarrow> Inl r | Inr c' \<Rightarrow> Inr c')"
  by (simp split: sum.splits)

subsection \<open>Arrays\<close>

lemma arr_set_other: "k \<noteq> p \<Longrightarrow> arr_get (arr_set a p x) k = arr_get a k"
  by (simp add: arr_get_def arr_set_def)

lemma arr_set_same: "arr_get (arr_set a p x) p = x"
  by (simp add: arr_get_def arr_set_def)

section \<open>Runs stay within exact arithmetic\<close>

text \<open>
  Every number of a run is an integer of magnitude at most \<open>2 ^ 53\<close>, so that every
  addition a run performs is one on which \<open>js_add\<close> agrees with the addition of doubles.
\<close>

lemma exact_js_add: "exact_number (js_add a b)"
  by (simp add: js_add_def exact_number_def Let_def)

lemma exact_js_plus: "exact_value (js_plus x a)"
  by (cases x) (simp_all add: exact_js_add)

lemma exact_charCodeAt: "exact_value (charCodeAt s k)"
proof -
  have "uint w \<le> 2 ^ 53 \<and> - (2 ^ 53) \<le> uint w" for w :: unit16
  proof -
    have "uint w < 2 ^ 16" using uint_bounded[of w] by simp
    moreover have "(2::int) ^ 16 \<le> 2 ^ 53" by simp
    ultimately have hi: "uint w \<le> 2 ^ 53" by (rule less_imp_le[OF less_le_trans])
    have lo: "- (2 ^ 53) \<le> uint w" by (rule order_trans[of _ 0]) simp_all
    from hi lo show ?thesis by blast
  qed
  then show ?thesis by (simp add: charCodeAt_def exact_number_def)
qed

lemma exact_or_zero: "exact_value x \<Longrightarrow> exact_value (or_zero x)"
  by (cases x) (simp_all add: exact_number_def)

lemma exact_arr_set:
  "exact_value x \<Longrightarrow> \<forall>k. exact_value (arr_get a k) \<Longrightarrow> exact_value (arr_get (arr_set a p x) k)"
  by (simp add: arr_get_def arr_set_def)

lemma exact_fresh_state: "exact_state (fresh_state n)"
  by (simp add: exact_state_def fresh_state_def exact_number_def arr_get_def zeros_def)

lemma exact_fresh_vars: "exact_vars (fresh_vars n)"
  by (simp add: exact_vars_def fresh_vars_def exact_number_def arr_get_def zeros_def)

lemma exact_MoveMemoryPointer:
  "exact_state st \<Longrightarrow> exact_state (snd (MoveMemoryPointer os f st))"
  by (simp add: MoveMemoryPointer_def Let_def exact_state_def exact_js_add)

lemma exact_MoveMemoryPointer_state:
  "exact_state st \<Longrightarrow> exact_state (snd (MoveMemoryPointer_state f st))"
  by (simp add: MoveMemoryPointer_state_def Let_def exact_state_def exact_js_add)

lemma pass_exact:
  assumes "exact_state st" and "\<And>f. exact_state (snd (mv f st))"
  shows "exact_state (state_after (InterpretInternal_pass mv stdIn c (i, out, st)))"
proof (cases "i < length c")
  case False
  with assms(1) show ?thesis by (simp add: pass_end state_after_def)
next
  case True
  show ?thesis
  proof (rule token_cases[of "c ! i"])
    assume "c ! i = tok CHR ''>''"
    with True assms(2)[of 1] show ?thesis
      by (cases "mv 1 st") (auto simp: pass_right state_after_def split: option.splits)
  next
    assume "c ! i = tok CHR ''<''"
    with True assms(2)[of "- 1"] show ?thesis
      by (cases "mv (- 1) st") (auto simp: pass_left state_after_def split: option.splits)
  next
    assume "c ! i = tok CHR ''+''"
    with True assms(1) show ?thesis
      by (simp add: pass_plus state_after_def IncrementMemoryLocation_def exact_state_def
          exact_arr_set exact_js_plus)
  next
    assume "c ! i = tok CHR ''-''"
    with True assms(1) show ?thesis
      by (simp add: pass_minus state_after_def IncrementMemoryLocation_def exact_state_def
          exact_arr_set exact_js_plus)
  next
    assume "c ! i = tok CHR ''.''"
    with True assms(1) show ?thesis by (simp add: pass_write state_after_def)
  next
    assume "c ! i = tok CHR '',''"
    with True assms(1) show ?thesis
      by (simp add: pass_read state_after_def ReadCharFromStdIn_def Let_def exact_state_def
          strict_eq_NaN_def exact_arr_set exact_charCodeAt exact_js_add)
  next
    assume "c ! i = tok CHR ''[''"
    with True assms(1) show ?thesis
      by (simp add: pass_open state_after_def BeginNewLoop_def exact_state_def)
  next
    assume "c ! i = tok CHR '']''"
    with True assms(1) show ?thesis
      by (simp add: pass_close state_after_def EndLoop_def exact_state_def split: option.splits)
  next
    assume "c ! i \<notin> instruction_set"
    with True assms(1) show ?thesis by (simp add: pass_other state_after_def)
  qed
qed

lemma BF_pass_exact:
  assumes "exact_vars v"
  shows "exact_vars (vars_after (BF_pass inp c (i, v)))"
proof (cases "i < length c")
  case False
  with assms show ?thesis by (simp add: BF_pass_end vars_after_def)
next
  case True
  show ?thesis
    using True assms
    by (rule_tac t = "c ! i" in token_cases)
      (simp_all add: BF_pass_right BF_pass_left BF_pass_plus BF_pass_minus BF_pass_write
        BF_pass_read BF_pass_open BF_pass_close BF_pass_other vars_after_def exact_vars_def
        exact_arr_set exact_js_plus exact_js_add exact_or_zero exact_charCodeAt)
qed

lemma Interpret_state_after_exact:
  "exact_state (state_after (Interpret_state_after c os (fresh_state m) n))"
proof -
  let ?pass = "InterpretInternal_pass MoveMemoryPointer_state (StdIn os) c"
  let ?Inv = "\<lambda>ls. exact_state (state_after (Inr ls))"
  let ?Post = "\<lambda>r. exact_state (state_after (Inl r))"
  have one: "exact_state (state_after (?pass ls))" if "?Inv ls" for ls
  proof (cases ls)
    case (fields i out st)
    with that have "exact_state st" by (simp add: state_after_def)
    then have "exact_state (state_after (?pass (i, out, st)))"
      by (intro pass_exact exact_MoveMemoryPointer_state)
    with fields show ?thesis by simp
  qed
  have step: "?Inv ls'" if "?Inv ls" "?pass ls = Inr ls'" for ls ls'
    using one[OF that(1)] that(2) by simp
  have fin: "?Post r" if "?Inv ls" "?pass ls = Inl r" for ls r
    using one[OF that(1)] that(2) by simp
  have init: "?Inv (0, [], fresh_state m)" by (simp add: state_after_def exact_fresh_state)
  show ?thesis
  proof (cases "Interpret_state_after c os (fresh_state m) n")
    case (Inl r)
    then have "after ?pass n (0, [], fresh_state m) = Inl r" by (simp add: Interpret_state_after_def)
    from after_result[of ?Inv ?pass ?Post, OF step fin init this] Inl show ?thesis by simp
  next
    case (Inr ls)
    then have "after ?pass n (0, [], fresh_state m) = Inr ls" by (simp add: Interpret_state_after_def)
    from after_invariant[of ?Inv ?pass, OF step init this] Inr show ?thesis by simp
  qed
qed

lemma Interpret_after_exact:
  assumes "exact_state (state this)"
  shows "exact_state (state_after (Interpret_after this n))"
proof -
  let ?pass = "InterpretInternal_pass (MoveMemoryPointer (options this)) (StdIn (options this)) (code this)"
  let ?Inv = "\<lambda>ls. exact_state (state_after (Inr ls))"
  let ?Post = "\<lambda>r. exact_state (state_after (Inl r))"
  have one: "exact_state (state_after (?pass ls))" if "?Inv ls" for ls
  proof (cases ls)
    case (fields i out st)
    with that have "exact_state st" by (simp add: state_after_def)
    then have "exact_state (state_after (?pass (i, out, st)))"
      by (intro pass_exact exact_MoveMemoryPointer)
    with fields show ?thesis by simp
  qed
  have step: "?Inv ls'" if "?Inv ls" "?pass ls = Inr ls'" for ls ls'
    using one[OF that(1)] that(2) by simp
  have fin: "?Post r" if "?Inv ls" "?pass ls = Inl r" for ls r
    using one[OF that(1)] that(2) by simp
  have init: "?Inv (0, [], state this)" using assms by (simp add: state_after_def)
  show ?thesis
  proof (cases "Interpret_after this n")
    case (Inl r)
    then have "after ?pass n (0, [], state this) = Inl r" by (simp add: Interpret_after_def)
    from after_result[of ?Inv ?pass ?Post, OF step fin init this] Inl show ?thesis by simp
  next
    case (Inr ls)
    then have "after ?pass n (0, [], state this) = Inr ls" by (simp add: Interpret_after_def)
    from after_invariant[of ?Inv ?pass, OF step init this] Inr show ?thesis by simp
  qed
qed

lemma BF_after_exact: "exact_vars (vars_after (BF_after inp c (fresh_vars m) n))"
proof -
  let ?pass = "BF_pass inp c"
  let ?Inv = "\<lambda>ls. exact_vars (vars_after (Inr ls))"
  let ?Post = "\<lambda>r. exact_vars (vars_after (Inl r))"
  have one: "exact_vars (vars_after (?pass ls))" if "?Inv ls" for ls
    using that BF_pass_exact[of "snd ls" inp c "fst ls"] by (cases ls) (simp add: vars_after_def)
  have step: "?Inv ls'" if "?Inv ls" "?pass ls = Inr ls'" for ls ls'
    using one[OF that(1)] that(2) by simp
  have fin: "?Post r" if "?Inv ls" "?pass ls = Inl r" for ls r
    using one[OF that(1)] that(2) by simp
  have init: "?Inv (0, fresh_vars m)" by (simp add: vars_after_def exact_fresh_vars)
  show ?thesis
  proof (cases "BF_after inp c (fresh_vars m) n")
    case (Inl r)
    then have "after ?pass n (0, fresh_vars m) = Inl r" by (simp add: BF_after_def)
    from after_result[of ?Inv ?pass ?Post, OF step fin init this] Inl show ?thesis by simp
  next
    case (Inr ls)
    then have "after ?pass n (0, fresh_vars m) = Inr ls" by (simp add: BF_after_def)
    from after_invariant[of ?Inv ?pass, OF step init this] Inr show ?thesis by simp
  qed
qed

section \<open>The pointer range check\<close>

lemma MoveMemoryPointer_accepts_iff:
  "fst (MoveMemoryPointer os forward st) = None
   \<longleftrightarrow> 0 \<le> js_add (memoryPointer st) forward \<and> js_add (memoryPointer st) forward \<le> int (MemoryWords os)"
  by (auto simp: MoveMemoryPointer_def Let_def)

lemma MoveMemoryPointer_state_accepts_iff:
  "fst (MoveMemoryPointer_state forward st) = None
   \<longleftrightarrow> 0 \<le> js_add (memoryPointer st) forward \<and> js_add (memoryPointer st) forward \<le> int (len (memory st))"
  by (auto simp: MoveMemoryPointer_state_def Let_def)

text \<open>
  C1. With \<open>MemoryWords = 3\<close>, empty input and the script \<open>+>+>+>\<close> the third \<open>>\<close> is
  said to raise a pointer range error. Both versions of the class accept it: the check
  is \<open>memoryPointer > MemoryWords\<close> (or \<open>> memory.length\<close>), and 3 is not above 3. The run
  returns the empty output.
\<close>

theorem C1_third_move_is_accepted:
  "Interpret_new (js ''+>+>+>'') (options_with 3 []) = Some (Inr [])
   \<and> map_option fst (Interpret_state (js ''+>+>+>'') (options_with 3 [])) = Some (Inr [])"
  by (simp add: bf_defs for_loop.simps)

section \<open>Reading past the end of the input\<close>

lemma ReadCharFromStdIn_cursor:
  "stdInPointer st < 2 ^ 53 \<Longrightarrow> - (2 ^ 53) \<le> stdInPointer st \<Longrightarrow>
   stdInPointer (ReadCharFromStdIn stdIn st) = stdInPointer st + 1"
  by (simp add: ReadCharFromStdIn_def Let_def js_add_def)

lemma ReadCharFromStdIn_stores:
  "arr_get (memory (ReadCharFromStdIn stdIn st)) (memoryPointer st)
   = charCodeAt stdIn (stdInPointer st)"
  by (simp add: ReadCharFromStdIn_def Let_def strict_eq_NaN_def arr_set_same)

lemma BF_read_past_end_stores_zero:
  assumes "i < length c" "c ! i = tok CHR '',''" "int (length inp) \<le> stdin_index v"
  shows "arr_get (memory_bf (vars_after (BF_pass inp c (i, v)))) (mem_index v) = Num 0"
  using assms by (simp add: BF_pass_read vars_after_def arr_set_same charCodeAt_def)

text \<open>
  C2. A read past the end of the input is said to store 0. \<open>ReadCharFromStdIn\<close> tests
  \<open>charCode === NaN\<close>, which never holds, so it stores \<open>NaN\<close>: on empty input the script
  \<open>,+.\<close> prints the code unit 0 in both versions of the class. The function \<open>BF\<close> stores
  0 and prints the code unit 1.
\<close>

theorem C2_exhausted_input_stores_NaN:
  "(\<forall>st. arr_get (memory (ReadCharFromStdIn [] st)) (memoryPointer st) = NaN)
   \<and> Interpret_new (js '',+.'') (options_with 3 []) = Some (Inr [0])
   \<and> map_option fst (Interpret_state (js '',+.'') (options_with 3 [])) = Some (Inr [0])
   \<and> map_option fst (BF no_document (js '',+.'') no_opts) = Some (Inr [1])"
  by (simp add: bf_defs for_loop.simps Let_def)

section \<open>Which memory cells an instruction changes\<close>

lemma pass_keeps_memory:
  assumes "move_frame mv" "i < length c"
    "c ! i \<in> {tok CHR ''>'', tok CHR ''<'', tok CHR ''.'', tok CHR ''['', tok CHR '']''}"
  shows "memory (state_after (InterpretInternal_pass mv stdIn c (i, out, st))) = memory st"
proof -
  have mv: "memory (snd (mv f st)) = memory st" for f
    using assms(1) by (simp add: move_frame_def)
  from assms(3) consider "c ! i = tok CHR ''>''" | "c ! i = tok CHR ''<''" | "c ! i = tok CHR ''.''"
    | "c ! i = tok CHR ''[''" | "c ! i = tok CHR '']''" by blast
  then show ?thesis
  proof cases
    case 1
    with assms(2) mv[of 1] show ?thesis
      by (cases "mv 1 st") (auto simp: pass_right state_after_def split: option.splits)
  next
    case 2
    with assms(2) mv[of "- 1"] show ?thesis
      by (cases "mv (- 1) st") (auto simp: pass_left state_after_def split: option.splits)
  next
    case 3
    with assms(2) show ?thesis by (simp add: pass_write state_after_def)
  next
    case 4
    with assms(2) show ?thesis by (simp add: pass_open state_after_def BeginNewLoop_def)
  next
    case 5
    with assms(2) show ?thesis
      by (simp add: pass_close state_after_def EndLoop_def split: option.splits)
  qed
qed

lemma pass_changes_current_cell_only:
  assumes "i < length c" "c ! i \<in> {tok CHR ''+'', tok CHR ''-'', tok CHR '',''}"
    "k \<noteq> memoryPointer st"
  shows "arr_get (memory (state_after (InterpretInternal_pass mv stdIn c (i, out, st)))) k
         = arr_get (memory st) k"
proof -
  from assms(2) consider "c ! i = tok CHR ''+''" | "c ! i = tok CHR ''-''" | "c ! i = tok CHR '',''"
    by blast
  then show ?thesis
  proof cases
    case 1
    with assms(1,3) show ?thesis
      by (simp add: pass_plus state_after_def IncrementMemoryLocation_def arr_set_other)
  next
    case 2
    with assms(1,3) show ?thesis
      by (simp add: pass_minus state_after_def IncrementMemoryLocation_def arr_set_other)
  next
    case 3
    with assms(1,3) show ?thesis
      by (simp add: pass_read state_after_def ReadCharFromStdIn_def Let_def arr_set_other)
  qed
qed

lemma BF_pass_keeps_memory:
  assumes "i < length c"
    "c ! i \<in> {tok CHR ''>'', tok CHR ''<'', tok CHR ''.'', tok CHR ''['', tok CHR '']''}"
  shows "memory_bf (vars_after (BF_pass inp c (i, v))) = memory_bf v"
proof -
  from assms(2) consider "c ! i = tok CHR ''>''" | "c ! i = tok CHR ''<''" | "c ! i = tok CHR ''.''"
    | "c ! i = tok CHR ''[''" | "c ! i = tok CHR '']''" by blast
  then show ?thesis
    using assms(1)
    by cases (simp_all add: BF_pass_right BF_pass_left BF_pass_write BF_pass_open BF_pass_close
        vars_after_def)
qed

lemma BF_pass_changes_current_cell_only:
  assumes "i < length c" "c ! i \<in> {tok CHR ''+'', tok CHR ''-'', tok CHR '',''}"
    "k \<noteq> mem_index v"
  shows "arr_get (memory_bf (vars_after (BF_pass inp c (i, v)))) k = arr_get (memory_bf v) k"
proof -
  from assms(2) consider "c ! i = tok CHR ''+''" | "c ! i = tok CHR ''-''" | "c ! i = tok CHR '',''"
    by blast
  then show ?thesis
    using assms(1,3)
    by cases (simp_all add: BF_pass_plus BF_pass_minus BF_pass_read vars_after_def arr_set_other)
qed

text \<open>
  C10. One pass over \<open>>\<close>, \<open><\<close>, \<open>.\<close>, \<open>[\<close> or \<open>]\<close> leaves the memory as it was, also
  when the pass throws or ends the run; one pass over \<open>+\<close>, \<open>-\<close> or \<open>,\<close> leaves every
  cell but the one under the data pointer as it was. This holds in both versions of
  the class and in the function \<open>BF\<close>.
\<close>

theorem C10_frame:
  assumes "i < length c"
  shows
    "(mv = MoveMemoryPointer os \<or> mv = MoveMemoryPointer_state \<longrightarrow>
        (c ! i \<in> {tok CHR ''>'', tok CHR ''<'', tok CHR ''.'', tok CHR ''['', tok CHR '']''} \<longrightarrow>
           memory (state_after (InterpretInternal_pass mv stdIn c (i, out, st))) = memory st)
      \<and> (c ! i \<in> {tok CHR ''+'', tok CHR ''-'', tok CHR '',''} \<longrightarrow>
           (\<forall>k. k \<noteq> memoryPointer st \<longrightarrow>
              arr_get (memory (state_after (InterpretInternal_pass mv stdIn c (i, out, st)))) k
              = arr_get (memory st) k)))
     \<and> (c ! i \<in> {tok CHR ''>'', tok CHR ''<'', tok CHR ''.'', tok CHR ''['', tok CHR '']''} \<longrightarrow>
           memory_bf (vars_after (BF_pass inp c (i, v))) = memory_bf v)
     \<and> (c ! i \<in> {tok CHR ''+'', tok CHR ''-'', tok CHR '',''} \<longrightarrow>
           (\<forall>k. k \<noteq> mem_index v \<longrightarrow>
              arr_get (memory_bf (vars_after (BF_pass inp c (i, v)))) k = arr_get (memory_bf v) k))"
proof -
  have "move_frame mv" if "mv = MoveMemoryPointer os \<or> mv = MoveMemoryPointer_state"
    using that move_frame_MoveMemoryPointer move_frame_MoveMemoryPointer_state by blast
  then show ?thesis
    using assms pass_keeps_memory[of mv i c stdIn out st]
      pass_changes_current_cell_only[of i c _ st mv stdIn out]
      BF_pass_keeps_memory[of i c inp v] BF_pass_changes_current_cell_only[of i c _ v inp]
    by blast
qed

text \<open>At the script \<open>>+\<close> on a fresh memory of three words: \<open>>\<close> changes nothing, \<open>+\<close>
  changes cell 0 and not cell 2.\<close>

theorem C10_frame_witness:
  "memory (state_after (InterpretInternal_pass MoveMemoryPointer_state [] (js ''>+'') (0, [], fresh_state 3)))
     = memory (fresh_state 3)
   \<and> arr_get (memory (state_after (InterpretInternal_pass MoveMemoryPointer_state [] (js ''>+'')
        (1, [], fresh_state 3)))) 2 = arr_get (memory (fresh_state 3)) 2
   \<and> arr_get (memory (state_after (InterpretInternal_pass MoveMemoryPointer_state [] (js ''>+'')
        (1, [], fresh_state 3)))) 0 = Num 1"
proof -
  have l: "0 < length (js ''>+'')" "1 < length (js ''>+'')" by (simp_all add: js_def)
  have t: "js ''>+'' ! 0 = tok CHR ''>''" "js ''>+'' ! 1 = tok CHR ''+''" by (simp_all add: js_def tok_def)
  have p: "(2::int) \<noteq> memoryPointer (fresh_state 3)" by (simp add: fresh_state_def)
  from C10_frame[OF l(1), of MoveMemoryPointer_state "options_with 3 []" "[]" "[]" "fresh_state 3"] t(1)
  have a: "memory (state_after (InterpretInternal_pass MoveMemoryPointer_state [] (js ''>+'') (0, [], fresh_state 3)))
     = memory (fresh_state 3)" by simp
  from C10_frame[OF l(2), of MoveMemoryPointer_state "options_with 3 []" "[]" "[]" "fresh_state 3"] t(2) p
  have b: "arr_get (memory (state_after (InterpretInternal_pass MoveMemoryPointer_state [] (js ''>+'')
        (1, [], fresh_state 3)))) 2 = arr_get (memory (fresh_state 3)) 2" by simp
  have c: "arr_get (memory (state_after (InterpretInternal_pass MoveMemoryPointer_state [] (js ''>+'')
        (1, [], fresh_state 3)))) 0 = Num 1"
    by (simp add: bf_defs state_after_def fresh_state_def)
  from a b c show ?thesis by blast
qed

section \<open>What \<open>Interpret\<close> returns\<close>

lemma MoveMemoryPointer_cong:
  "MemoryWords os' = MemoryWords os \<Longrightarrow> MoveMemoryPointer os' = MoveMemoryPointer os"
  by (intro ext) (simp add: MoveMemoryPointer_def Let_def)

lemma InterpretInternal_cong:
  "MemoryWords os' = MemoryWords os \<Longrightarrow> StdIn os' = StdIn os \<Longrightarrow>
   InterpretInternal os' c st = InterpretInternal os c st"
  by (simp add: InterpretInternal_def MoveMemoryPointer_cong[of os' os])

lemma InterpretInternal_state_cong:
  "StdIn os' = StdIn os \<Longrightarrow> InterpretInternal_state os' c st = InterpretInternal_state os c st"
  by (simp add: InterpretInternal_state_def)

lemma Interpret_result:
  "map_option fst (Interpret this)
   = map_option fst (InterpretInternal (options this) (code this) (state this))"
  by (auto simp: Interpret_def split: option.splits sum.splits)

lemma Interpret_state_result:
  "map_option fst (Interpret_state c os)
   = (case new_BFInterpreterState os of
        Inl e \<Rightarrow> Some (Inl e)
      | Inr st0 \<Rightarrow> map_option fst (InterpretInternal_state os c st0))"
  by (auto simp: Interpret_state_def split: option.splits sum.splits)

lemma Interpret_quiet:
  "Quiet (options this) \<Longrightarrow> CompleteCallback (options this) = None \<Longrightarrow>
   Interpret this = Some (r, ev, this') \<Longrightarrow> ev = []"
  by (auto simp: Interpret_def WriteOutput_def OnComplete_def split: option.splits sum.splits)

lemma Interpret_state_quiet:
  "Quiet os \<Longrightarrow> CompleteCallback os = None \<Longrightarrow> Interpret_state c os = Some (r, ev) \<Longrightarrow> ev = []"
  by (auto simp: Interpret_state_def WriteOutput_def OnComplete_def split: option.splits sum.splits)

text \<open>
  C7. What \<open>Interpret\<close> returns to its caller is the result of \<open>InterpretInternal\<close>, whatever
  \<open>Quiet\<close>, \<open>CompleteCallback\<close> and \<open>OutputElement\<close> are; and with \<open>Quiet\<close> set and no
  callback a call that returns has caused no event: nothing on the console, nothing
  appended to an element. Both versions of the class. The console, the document and the
  callback are taken to return normally.
\<close>

theorem C7_Interpret_returns_the_output:
  "map_option fst (Interpret (this\<lparr>options := (options this)\<lparr>Quiet := q, CompleteCallback := cb,
        OutputElement := el\<rparr>\<rparr>))
     = map_option fst (InterpretInternal (options this) (code this) (state this))
   \<and> (Quiet (options this) \<and> CompleteCallback (options this) = None \<and>
        Interpret this = Some (r, ev, this') \<longrightarrow> ev = [])
   \<and> map_option fst (Interpret_state c (os\<lparr>Quiet := q, CompleteCallback := cb, OutputElement := el\<rparr>))
     = (case new_BFInterpreterState os of
          Inl e \<Rightarrow> Some (Inl e)
        | Inr st0 \<Rightarrow> map_option fst (InterpretInternal_state os c st0))
   \<and> (Quiet os \<and> CompleteCallback os = None \<and> Interpret_state c os = Some (r', ev') \<longrightarrow> ev' = [])"
proof -
  let ?os = "(options this)\<lparr>Quiet := q, CompleteCallback := cb, OutputElement := el\<rparr>"
  have "map_option fst (Interpret (this\<lparr>options := ?os\<rparr>))
        = map_option fst (InterpretInternal ?os (code this) (state this))"
    using Interpret_result[of "this\<lparr>options := ?os\<rparr>"] by simp
  also have "InterpretInternal ?os (code this) (state this)
        = InterpretInternal (options this) (code this) (state this)"
    by (rule InterpretInternal_cong) simp_all
  finally have a: "map_option fst (Interpret (this\<lparr>options := ?os\<rparr>))
     = map_option fst (InterpretInternal (options this) (code this) (state this))" .
  let ?os' = "os\<lparr>Quiet := q, CompleteCallback := cb, OutputElement := el\<rparr>"
  have n: "new_BFInterpreterState ?os' = new_BFInterpreterState os"
    by (simp add: new_BFInterpreterState_def)
  have i: "InterpretInternal_state ?os' c st = InterpretInternal_state os c st" for st
    by (rule InterpretInternal_state_cong) simp
  have b: "map_option fst (Interpret_state c ?os')
     = (case new_BFInterpreterState os of
          Inl e \<Rightarrow> Some (Inl e)
        | Inr st0 \<Rightarrow> map_option fst (InterpretInternal_state os c st0))"
    by (simp add: Interpret_state_result n i split: sum.splits)
  from a b Interpret_quiet[of this r ev this'] Interpret_state_quiet[of os c r' ev']
  show ?thesis by blast
qed

text \<open>The script \<open>+.\<close> with \<open>Quiet\<close> set and no callback: the output is returned and there
  is no event.\<close>

theorem C7_Interpret_returns_the_output_witness:
  "Quiet quiet_options \<and> CompleteCallback quiet_options = None
   \<and> Interpret_state (js ''+.'') quiet_options = Some (Inr [1], [])"
proof -
  have e: "Interpret_state (js ''+.'') quiet_options = Some (Inr [1], snd (the (Interpret_state (js ''+.'') quiet_options)))"
    by (simp add: bf_defs quiet_options_def for_loop.simps)
  have q: "Quiet quiet_options" "CompleteCallback quiet_options = None"
    by (simp_all add: quiet_options_def default_options_def)
  from C7_Interpret_returns_the_output[where os = quiet_options and c = "js ''+.''"
      and r' = "Inr [1]" and ev' = "snd (the (Interpret_state (js ''+.'') quiet_options))"] q e
  have "snd (the (Interpret_state (js ''+.'') quiet_options)) = []" by blast
  with e q show ?thesis by simp
qed

section \<open>Characters outside the instruction set\<close>

lemma for_loop_invalid:
  assumes "after (InterpretInternal_pass mv stdIn c) n c0 = Inr (i, out, st)"
    and "i < length c" and "c ! i \<notin> instruction_set"
  shows "for_loop (InterpretInternal_pass mv stdIn c) c0
         = Some (Inl (InvalidInstructionError (c ! i) i), st)"
proof -
  have "for_loop (InterpretInternal_pass mv stdIn c) c0
        = for_loop (InterpretInternal_pass mv stdIn c) (i, out, st)"
    using assms(1) by (rule for_loop_after_continue)
  also have "\<dots> = Some (Inl (InvalidInstructionError (c ! i) i), st)"
    using assms(2,3) by (subst for_loop.simps) (simp add: pass_other)
  finally show ?thesis .
qed

text \<open>
  C3, as the function \<open>BF\<close> contradicts it: \<open>BF\<close> has no branch for a character outside
  the instruction set. On the script \<open>a\<close> it returns the empty output and logs it.
\<close>

theorem C3_BF_skips_other_characters:
  "BF no_document (js ''a'') no_opts = Some (Inr [], [ConsoleLog []])"
  by (simp add: bf_defs for_loop.simps)

text \<open>
  C3, amended. In both versions of the class: when a run reaches, after any number of
  passes, a position that holds a character outside the instruction set, the run ends
  there. \<open>Interpret\<close> throws the error that carries this character and this position;
  the caller gets no output string, and nothing is logged, appended or called back.
  The function \<open>BF\<close> skips such a character: the pass changes nothing and goes on to the
  next position.
\<close>

theorem C3_invalid_character_aborts:
  "(Interpret_after this n = Inr (i, out, st) \<and> i < length (code this)
      \<and> code this ! i \<notin> instruction_set \<longrightarrow>
      Interpret this
      = Some (Inl (InvalidInstructionError (code this ! i) i), [], this\<lparr>state := st\<rparr>))
   \<and> (new_BFInterpreterState os = Inr st0 \<and> Interpret_state_after c os st0 n = Inr (i, out, st)
      \<and> i < length c \<and> c ! i \<notin> instruction_set \<longrightarrow>
      Interpret_state c os = Some (Inl (InvalidInstructionError (c ! i) i), []))
   \<and> (i < length c \<and> c ! i \<notin> instruction_set \<longrightarrow> BF_pass inp c (i, v) = Inr (i + 1, v))"
proof (intro conjI impI)
  assume "Interpret_after this n = Inr (i, out, st) \<and> i < length (code this)
      \<and> code this ! i \<notin> instruction_set"
  then have "InterpretInternal (options this) (code this) (state this)
      = Some (Inl (InvalidInstructionError (code this ! i) i), st)"
    unfolding InterpretInternal_def Interpret_after_def by (blast intro: for_loop_invalid)
  then show "Interpret this
      = Some (Inl (InvalidInstructionError (code this ! i) i), [], this\<lparr>state := st\<rparr>)"
    by (simp add: Interpret_def)
next
  assume a: "new_BFInterpreterState os = Inr st0 \<and> Interpret_state_after c os st0 n = Inr (i, out, st)
      \<and> i < length c \<and> c ! i \<notin> instruction_set"
  then have "InterpretInternal_state os c st0
      = Some (Inl (InvalidInstructionError (c ! i) i), st)"
    unfolding InterpretInternal_state_def Interpret_state_after_def
    by (blast intro: for_loop_invalid)
  with a show "Interpret_state c os = Some (Inl (InvalidInstructionError (c ! i) i), [])"
    by (simp add: Interpret_state_def)
next
  assume "i < length c \<and> c ! i \<notin> instruction_set"
  then show "BF_pass inp c (i, v) = Inr (i + 1, v)"
    by (simp add: BF_pass_other)
qed

text \<open>The script \<open>+.a+\<close>: after two passes the run is at the \<open>a\<close> of position 2, with one
  character of output; \<open>Interpret\<close> throws, and \<open>BF\<close> steps over the \<open>a\<close>.\<close>

theorem C3_invalid_character_aborts_witness:
  "new_BFInterpreterState (options_with 3 []) = Inr (fresh_state 3)
   \<and> Interpret_state_after (js ''+.a+'') (options_with 3 []) (fresh_state 3) 2
       = Inr (2, [1], IncrementMemoryLocation 1 (fresh_state 3))
   \<and> 2 < length (js ''+.a+'')
   \<and> js ''+.a+'' ! 2 \<notin> instruction_set
   \<and> Interpret_state (js ''+.a+'') (options_with 3 [])
       = Some (Inl (InvalidInstructionError (tok CHR ''a'') 2), [])
   \<and> BF_pass [] (js ''+.a+'') (2, fresh_vars 3) = Inr (3, fresh_vars 3)"
proof -
  let ?st = "IncrementMemoryLocation 1 (fresh_state 3)"
  have a: "new_BFInterpreterState (options_with 3 []) = Inr (fresh_state 3)"
    by (simp add: bf_defs fresh_state_def)
  have b: "Interpret_state_after (js ''+.a+'') (options_with 3 []) (fresh_state 3) 2
       = Inr (2, [1], ?st)"
    by (simp add: Interpret_state_after_def after_numeral after_1 bf_defs fresh_state_def)
  have c: "2 < length (js ''+.a+'')" by (simp add: js_def)
  have d: "js ''+.a+'' ! 2 \<notin> instruction_set" by (simp add: js_def instruction_set_def tok_def)
  have e: "js ''+.a+'' ! 2 = tok CHR ''a''" by (simp add: js_def tok_def)
  from C3_invalid_character_aborts[of
      "\<lparr>code = js ''+.a+'', options = options_with 3 [], state = fresh_state 3\<rparr>" 2 2 "[1]" ?st
      "options_with 3 []" "fresh_state 3" "js ''+.a+''" "[]" "fresh_vars 3"] a b c d e
  show ?thesis by simp
qed

section \<open>The loop-start stack holds positions of \<open>[\<close>\<close>

lemma loop_starts_ok_butlast: "loop_starts_ok c xs \<Longrightarrow> loop_starts_ok c (butlast xs)"
  by (induction xs) (auto simp: loop_starts_ok_def)

lemma loop_starts_ok_Nil: "loop_starts_ok c []"
  by (simp add: loop_starts_ok_def)

lemma loop_starts_ok_snoc:
  "loop_starts_ok c xs \<Longrightarrow> i < length c \<Longrightarrow> c ! i = tok CHR ''['' \<Longrightarrow> loop_starts_ok c (xs @ [i])"
  by (simp add: loop_starts_ok_def)

lemma pass_loop_starts_ok:
  assumes "move_frame mv" and "loop_starts_ok c (loopStartIndices st)"
  shows "loop_starts_ok c (loopStartIndices (state_after (InterpretInternal_pass mv stdIn c (i, out, st))))"
proof (cases "i < length c")
  case False
  with assms(2) show ?thesis by (simp add: pass_end state_after_def)
next
  case True
  have mv: "loopStartIndices (snd (mv f st)) = loopStartIndices st" for f
    using assms(1) by (simp add: move_frame_def)
  show ?thesis
  proof (rule token_cases[of "c ! i"])
    assume "c ! i = tok CHR ''>''"
    with True assms(2) mv[of 1] show ?thesis
      by (cases "mv 1 st") (auto simp: pass_right state_after_def split: option.splits)
  next
    assume "c ! i = tok CHR ''<''"
    with True assms(2) mv[of "- 1"] show ?thesis
      by (cases "mv (- 1) st") (auto simp: pass_left state_after_def split: option.splits)
  next
    assume "c ! i = tok CHR ''+''"
    with True assms(2) show ?thesis
      by (simp add: pass_plus state_after_def IncrementMemoryLocation_def)
  next
    assume "c ! i = tok CHR ''-''"
    with True assms(2) show ?thesis
      by (simp add: pass_minus state_after_def IncrementMemoryLocation_def)
  next
    assume "c ! i = tok CHR ''.''"
    with True assms(2) show ?thesis by (simp add: pass_write state_after_def)
  next
    assume "c ! i = tok CHR '',''"
    with True assms(2) show ?thesis
      by (simp add: pass_read state_after_def ReadCharFromStdIn_def Let_def)
  next
    assume "c ! i = tok CHR ''[''"
    with True assms(2) show ?thesis
      by (simp add: pass_open state_after_def BeginNewLoop_def loop_starts_ok_snoc)
  next
    assume "c ! i = tok CHR '']''"
    with True assms(2) show ?thesis
      by (simp add: pass_close state_after_def EndLoop_def loop_starts_ok_butlast
          split: option.splits)
  next
    assume "c ! i \<notin> instruction_set"
    with True assms(2) show ?thesis by (simp add: pass_other state_after_def)
  qed
qed

lemma BF_pass_loop_starts_ok:
  assumes "loop_starts_ok c (loop_start_indices v)"
  shows "loop_starts_ok c (loop_start_indices (vars_after (BF_pass inp c (i, v))))"
proof (cases "i < length c")
  case False
  with assms show ?thesis by (simp add: BF_pass_end vars_after_def)
next
  case True
  show ?thesis
    using True assms
    by (rule_tac t = "c ! i" in token_cases)
      (simp_all add: BF_pass_right BF_pass_left BF_pass_plus BF_pass_minus BF_pass_write
        BF_pass_read BF_pass_open BF_pass_close BF_pass_other vars_after_def
        loop_starts_ok_snoc loop_starts_ok_butlast loop_starts_ok_Nil)
qed

lemma after_loop_starts_ok:
  assumes "move_frame mv" and "loop_starts_ok c (loopStartIndices st0)"
  shows "loop_starts_ok c (loopStartIndices
           (state_after (after (InterpretInternal_pass mv stdIn c) n (i0, out0, st0))))"
proof -
  let ?Inv = "\<lambda>ls. loop_starts_ok c (loopStartIndices (state_after (Inr ls)))"
  let ?Post = "\<lambda>r. loop_starts_ok c (loopStartIndices (state_after (Inl r)))"
  have step: "?Inv ls'" if "?Inv ls" "InterpretInternal_pass mv stdIn c ls = Inr ls'" for ls ls'
    using that pass_loop_starts_ok[OF assms(1), of c "snd (snd ls)" stdIn "fst ls" "fst (snd ls)"]
    by (cases ls) (simp add: state_after_def)
  have fin: "?Post r" if "?Inv ls" "InterpretInternal_pass mv stdIn c ls = Inl r" for ls r
    using that pass_loop_starts_ok[OF assms(1), of c "snd (snd ls)" stdIn "fst ls" "fst (snd ls)"]
    by (cases ls) (simp add: state_after_def)
  have init: "?Inv (i0, out0, st0)" using assms(2) by (simp add: state_after_def)
  show ?thesis
  proof (cases "after (InterpretInternal_pass mv stdIn c) n (i0, out0, st0)")
    case (Inl r)
    from after_result[of ?Inv "InterpretInternal_pass mv stdIn c" ?Post, OF step fin init Inl]
    show ?thesis using Inl by simp
  next
    case (Inr ls)
    from after_invariant[of ?Inv "InterpretInternal_pass mv stdIn c", OF step init Inr]
    show ?thesis using Inr by simp
  qed
qed

lemma BF_after_loop_starts_ok:
  assumes "loop_starts_ok c (loop_start_indices v0)"
  shows "loop_starts_ok c (loop_start_indices (vars_after (after (BF_pass inp c) n (i0, v0))))"
proof -
  let ?Inv = "\<lambda>ls. loop_starts_ok c (loop_start_indices (vars_after (Inr ls)))"
  let ?Post = "\<lambda>r. loop_starts_ok c (loop_start_indices (vars_after (Inl r)))"
  have step: "?Inv ls'" if "?Inv ls" "BF_pass inp c ls = Inr ls'" for ls ls'
    using that BF_pass_loop_starts_ok[of c "snd ls" inp "fst ls"]
    by (cases ls) (simp add: vars_after_def)
  have fin: "?Post r" if "?Inv ls" "BF_pass inp c ls = Inl r" for ls r
    using that BF_pass_loop_starts_ok[of c "snd ls" inp "fst ls"]
    by (cases ls) (simp add: vars_after_def)
  have init: "?Inv (i0, v0)" using assms by (simp add: vars_after_def)
  show ?thesis
  proof (cases "after (BF_pass inp c) n (i0, v0)")
    case (Inl r)
    from after_result[of ?Inv "BF_pass inp c" ?Post, OF step fin init Inl]
    show ?thesis using Inl by simp
  next
    case (Inr ls)
    from after_invariant[of ?Inv "BF_pass inp c", OF step init Inr]
    show ?thesis using Inr by simp
  qed
qed

lemma new_BFInterpreterState_fresh:
  "new_BFInterpreterState os = Inr st0 \<Longrightarrow> st0 = fresh_state (MemoryWords os)"
  by (auto simp: new_BFInterpreterState_def InitializeMemory_def fresh_state_def split: if_splits)

lemma new_BFInterpreter_fresh:
  "new_BFInterpreter c opts = Inr this \<Longrightarrow>
   code this = c \<and> state this = fresh_state (MemoryWords (options this))
   \<and> options this = (case opts of Some o' \<Rightarrow> o' | None \<Rightarrow> default_options)"
  by (auto simp: new_BFInterpreter_def InitializeMemory_def fresh_state_def Let_def
      split: if_splits option.splits)

lemma BF_init_fresh: "BF_init m = Inr v0 \<Longrightarrow> v0 = fresh_vars m"
  by (auto simp: BF_init_def fresh_vars_def split: if_splits)

lemma Interpret_returns_after:
  assumes "Interpret this = Some (r, ev, this')"
  shows "\<exists>n st. Interpret_after this n = Inl (r, st) \<and> this' = this\<lparr>state := st\<rparr>"
proof -
  from assms obtain st where
    "InterpretInternal (options this) (code this) (state this) = Some (r, st)"
    and t: "this' = this\<lparr>state := st\<rparr>"
    by (auto simp: Interpret_def split: option.splits sum.splits)
  then obtain n where "Interpret_after this n = Inl (r, st)"
    unfolding InterpretInternal_def Interpret_after_def
    by (blast dest: for_loop_returns_after)
  with t show ?thesis by blast
qed

text \<open>
  C9. At every pass of every run the loop-start stack holds only positions of the
  script at which the script has \<open>[\<close>. For an instance with its state in fields: the
  constructor makes it so, every pass of \<open>Interpret\<close> keeps it so, and so does the
  state that a returning or throwing call leaves in the instance for the next call.
  For \<open>Interpret\<close> with a state object and for \<open>BF\<close>: every pass of a run from the
  initial state.
\<close>

theorem C9_loop_starts_are_open_brackets:
  "(new_BFInterpreter c opts = Inr this0 \<longrightarrow> instance_ok this0)
   \<and> (instance_ok this \<longrightarrow>
        loop_starts_ok (code this) (loopStartIndices (state_after (Interpret_after this n))))
   \<and> (instance_ok this \<and> Interpret this = Some (r, ev, this') \<longrightarrow> instance_ok this')
   \<and> (new_BFInterpreterState os = Inr st0 \<longrightarrow>
        loop_starts_ok c (loopStartIndices (state_after (Interpret_state_after c os st0 n))))
   \<and> (BF_init m = Inr v0 \<longrightarrow>
        loop_starts_ok c (loop_start_indices (vars_after (BF_after inp c v0 n))))"
proof (intro conjI impI)
  assume "new_BFInterpreter c opts = Inr this0"
  from new_BFInterpreter_fresh[OF this] show "instance_ok this0"
    by (simp add: instance_ok_def fresh_state_def loop_starts_ok_def)
next
  assume "instance_ok this"
  then show "loop_starts_ok (code this) (loopStartIndices (state_after (Interpret_after this n)))"
    unfolding instance_ok_def Interpret_after_def
    by (rule after_loop_starts_ok[OF move_frame_MoveMemoryPointer])
next
  assume a: "instance_ok this \<and> Interpret this = Some (r, ev, this')"
  then obtain k st where k: "Interpret_after this k = Inl (r, st)" and t: "this' = this\<lparr>state := st\<rparr>"
    by (blast dest: Interpret_returns_after)
  from a have "loop_starts_ok (code this) (loopStartIndices (state_after (Interpret_after this k)))"
    unfolding instance_ok_def Interpret_after_def
    by (blast intro: after_loop_starts_ok[OF move_frame_MoveMemoryPointer])
  with k t show "instance_ok this'" by (simp add: instance_ok_def state_after_def)
next
  assume "new_BFInterpreterState os = Inr st0"
  from new_BFInterpreterState_fresh[OF this]
  have "loop_starts_ok c (loopStartIndices st0)"
    by (simp add: fresh_state_def loop_starts_ok_def)
  then show "loop_starts_ok c (loopStartIndices (state_after (Interpret_state_after c os st0 n)))"
    unfolding Interpret_state_after_def
    by (rule after_loop_starts_ok[OF move_frame_MoveMemoryPointer_state])
next
  assume "BF_init m = Inr v0"
  from BF_init_fresh[OF this] have "loop_starts_ok c (loop_start_indices v0)"
    by (simp add: fresh_vars_def loop_starts_ok_def)
  then show "loop_starts_ok c (loop_start_indices (vars_after (BF_after inp c v0 n)))"
    unfolding BF_after_def by (rule BF_after_loop_starts_ok)
qed

text \<open>The script \<open>+[-]\<close> after two passes: the stack holds position 1, where the script
  has \<open>[\<close>.\<close>

theorem C9_loop_starts_are_open_brackets_witness:
  "new_BFInterpreterState (options_with 3 []) = Inr (fresh_state 3)
   \<and> loopStartIndices (state_after
         (Interpret_state_after (js ''+[-]'') (options_with 3 []) (fresh_state 3) 2)) = [1]
   \<and> loop_starts_ok (js ''+[-]'') (loopStartIndices (state_after
         (Interpret_state_after (js ''+[-]'') (options_with 3 []) (fresh_state 3) 2)))"
proof -
  have a: "new_BFInterpreterState (options_with 3 []) = Inr (fresh_state 3)"
    by (simp add: bf_defs fresh_state_def)
  have b: "loopStartIndices (state_after
         (Interpret_state_after (js ''+[-]'') (options_with 3 []) (fresh_state 3) 2)) = [1]"
    by (simp add: Interpret_state_after_def after_numeral after_1 bf_defs fresh_state_def
        state_after_def)
  from C9_loop_starts_are_open_brackets[where c = "js ''+[-]''" and os = "options_with 3 []"
      and ?st0.0 = "fresh_state 3" and n = 2] a
  have "loop_starts_ok (js ''+[-]'') (loopStartIndices (state_after
         (Interpret_state_after (js ''+[-]'') (options_with 3 []) (fresh_state 3) 2)))"
    by blast
  with a b show ?thesis by blast
qed

section \<open>The loop-close instruction\<close>









section \<open>Copying the input to the output\<close>

lemma read_write_pairs_Suc:
  "read_write_pairs (Suc n) = tok CHR '','' # tok CHR ''.'' # read_write_pairs n"
  by (simp add: read_write_pairs_def js_def tok_def)

lemma length_read_write_pairs: "length (read_write_pairs n) = 2 * n"
  by (induction n) (simp_all add: read_write_pairs_Suc, simp add: read_write_pairs_def)

lemma nth_read_write_pairs:
  "k < n \<Longrightarrow> read_write_pairs n ! (2 * k) = tok CHR '',''
           \<and> read_write_pairs n ! Suc (2 * k) = tok CHR ''.''"
proof (induction n arbitrary: k)
  case 0
  then show ?case by simp
next
  case (Suc n)
  show ?case
  proof (cases k)
    case 0
    then show ?thesis by (simp add: read_write_pairs_Suc)
  next
    case (Suc k')
    with Suc.prems have "k' < n" by simp
    from Suc.IH[OF this] Suc show ?thesis by (simp add: read_write_pairs_Suc)
  qed
qed






text \<open>The function \<open>BF\<close> copies its input in the same way.\<close>

lemma BF_read_then_write:
  assumes "k < length s" and "length s < 2 ^ 53" and "stdin_index v = int k"
  shows "\<exists>v'. after (BF_pass s (read_write_pairs (length s))) 2 (2 * k, v) = Inr (2 * Suc k, v')
               \<and> stdin_index v' = int (Suc k) \<and> std_out v' = std_out v @ [s ! k]"
proof -
  let ?c = "read_write_pairs (length s)"
  let ?v1 = "v\<lparr>memory_bf := arr_set (memory_bf v) (mem_index v) (or_zero (charCodeAt s (stdin_index v))),
               stdin_index := js_add (stdin_index v) 1\<rparr>"
  let ?v2 = "?v1\<lparr>std_out := std_out ?v1 @ [fromCharCode (arr_get (memory_bf ?v1) (mem_index ?v1))]\<rparr>"
  from assms(1) have l: "2 * k < length ?c" "Suc (2 * k) < length ?c"
    by (simp_all add: length_read_write_pairs)
  from nth_read_write_pairs[OF assms(1)]
  have t: "?c ! (2 * k) = tok CHR '',''" "?c ! Suc (2 * k) = tok CHR ''.''" by simp_all
  have p1: "BF_pass s ?c (2 * k, v) = Inr (Suc (2 * k), ?v1)"
    using BF_pass_read[OF l(1) t(1)] by simp
  have p2: "BF_pass s ?c (Suc (2 * k), ?v1) = Inr (2 * Suc k, ?v2)"
    using BF_pass_write[OF l(2) t(2), of s ?v1] by simp
  from assms have "int k + 1 \<le> 2 ^ 53" by simp
  with assms(3) have cur: "stdin_index ?v2 = int (Suc k)"
    by (simp add: js_add_def)
  from assms(1,3) have "fromCharCode (arr_get (memory_bf ?v1) (mem_index ?v1)) = s ! k"
    by (simp add: charCodeAt_def arr_set_same)
  then have out: "std_out ?v2 = std_out v @ [s ! k]" by simp
  from p1 p2 have "after (BF_pass s ?c) 2 (2 * k, v) = Inr (2 * Suc k, ?v2)"
    by (simp add: numeral_2_eq_2)
  with cur out show ?thesis by blast
qed

lemma BF_copy_loop:
  assumes "length s < 2 ^ 53" and "k \<le> length s" and "stdin_index v = int k"
    and "std_out v = take k s"
  shows "\<exists>v'. for_loop (BF_pass s (read_write_pairs (length s))) (2 * k, v) = Some v'
               \<and> std_out v' = s"
  using assms(2,3,4)
proof (induction "length s - k" arbitrary: k v)
  case 0
  then have "k = length s" by simp
  with 0 show ?case
    by (subst for_loop.simps) (simp add: BF_pass_end length_read_write_pairs)
next
  case (Suc d)
  then have k: "k < length s" by simp
  from BF_read_then_write[OF k assms(1) Suc.prems(2)]
  obtain v1 where a: "after (BF_pass s (read_write_pairs (length s))) 2 (2 * k, v)
        = Inr (2 * Suc k, v1)"
    and c: "stdin_index v1 = int (Suc k)" and o: "std_out v1 = std_out v @ [s ! k]" by blast
  from k o Suc.prems(3) have t: "std_out v1 = take (Suc k) s"
    by (simp add: take_Suc_conv_app_nth)
  from Suc.hyps(2) k have "d = length s - Suc k" "Suc k \<le> length s" by simp_all
  from Suc.hyps(1)[OF this c t] obtain v' where
    "for_loop (BF_pass s (read_write_pairs (length s))) (2 * Suc k, v1) = Some v'"
    "std_out v' = s" by blast
  with for_loop_after_continue[OF a] show ?case by simp
qed

lemma BF_copy_reproduces_input:
  assumes "mem_size opts \<le> max_array_length" and "length (stdin opts) < 2 ^ 53"
    and "id_opt opts = None"
  shows "map_option fst (BF getElementById (read_write_pairs (length (stdin opts))) opts)
         = Some (Inr (stdin opts))"
proof -
  let ?c = "read_write_pairs (length (stdin opts))"
  from assms(1) have i: "BF_init (mem_size opts) = Inr (fresh_vars (mem_size opts))"
    by (simp add: BF_init_def fresh_vars_def)
  from BF_copy_loop[OF assms(2), of 0 "fresh_vars (mem_size opts)"]
  obtain v' where "for_loop (BF_pass (stdin opts) ?c) (0, fresh_vars (mem_size opts)) = Some v'"
    and "std_out v' = stdin opts"
    by (auto simp: fresh_vars_def)
  with i assms(3) show ?thesis
    by (simp add: BF_def BF_run_def)
qed

section \<open>State across calls of \<open>Interpret\<close>\<close>

text \<open>
  What a run returns depends on the script, the input and the memory size only, when
  its state is new: for \<open>Interpret\<close> with a state object, for the first \<open>Interpret\<close> on a new
  instance, and for the loop of \<open>BF\<close>.
\<close>

lemma Interpret_state_depends_on:
  "MemoryWords os' = MemoryWords os \<Longrightarrow> StdIn os' = StdIn os \<Longrightarrow>
   map_option fst (Interpret_state c os') = map_option fst (Interpret_state c os)"
  by (simp add: Interpret_state_result new_BFInterpreterState_def
      InterpretInternal_state_cong[of os' os] split: sum.splits)

lemma Interpret_new_depends_on:
  assumes "MemoryWords os' = MemoryWords os" "StdIn os' = StdIn os"
  shows "Interpret_new c os' = Interpret_new c os"
proof (cases "MemoryWords os > max_array_length")
  case True
  with assms show ?thesis
    by (simp add: Interpret_new_def new_BFInterpreter_def InitializeMemory_def)
next
  case False
  with assms show ?thesis
    by (simp add: Interpret_new_def new_BFInterpreter_def InitializeMemory_def Interpret_result
        InterpretInternal_cong[of os' os])
qed

lemma BF_run_depends_on:
  "mem_size opts' = mem_size opts \<Longrightarrow> stdin opts' = stdin opts \<Longrightarrow> BF_run c opts' = BF_run c opts"
  by (simp add: BF_run_def split: sum.splits)

text \<open>
  C4. Two calls of \<open>Interpret\<close> on one instance are said to return the same output.
  With the state in instance fields the second call starts from the memory the first
  one left: the script \<open>+.\<close> prints the code unit 1, then the code unit 2.
\<close>

theorem C4_second_call_sees_first_calls_state:
  "Interpret_new_twice (js ''+.'') (options_with 3 []) = Some (Inr [1], Inr [2])"
  by (simp add: bf_defs for_loop.simps)

text \<open>
  C8. Two runs with the same script, input and memory size are said to give the same
  result. With the state in instance fields the second call on an instance continues
  with the input cursor of the first: the script \<open>,.\<close> on the input \<open>a\<close> prints \<open>a\<close>, then
  the code unit 0.
\<close>

theorem C8_same_arguments_different_results:
  "Interpret_new_twice (js '',.'') (options_with 1 (js ''a'')) = Some (Inr (js ''a''), Inr [0])"
  by (simp add: bf_defs for_loop.simps)

end
